theory Spec2Isabelle
  imports
    Main
    "HOL-Library.Word"
    "HOL-Library.Char_ord"
    "HOL-Library.List_Lexorder"
    "HOL-Library.Multiset"
begin

unbundle bit_operations_syntax

section \<open>Python strings\<close>

text \<open>
  A Python \<open>str\<close> is modelled by its UTF-8 byte sequence, a \<^typ>\<open>string\<close>.
  Python compares strings lexicographically by code point, a proper prefix being smaller;
  the bytewise lexicographic order of the UTF-8 encodings is the same order, and it is the
  order \<open>HOL-Library.List_Lexorder\<close> with \<open>HOL-Library.Char_ord\<close> puts on
  \<^typ>\<open>string\<close>. So \<open>sorted(...)\<close> on strings is \<^const>\<open>sort\<close>, and
  \<open>s.encode()\<close> is the identity.
\<close>

text \<open>\<open>sep.join(xs)\<close>\<close>

fun join_str :: "string \<Rightarrow> string list \<Rightarrow> string" where
  "join_str sep [] = []"
| "join_str sep [x] = x"
| "join_str sep (x # y # ys) = x @ sep @ join_str sep (y # ys)"

text \<open>\<open>s.split(c, 1)\<close> for a string that contains \<open>c\<close>: the part before the first
  \<open>c\<close> and the part after it.\<close>

definition split_once :: "char \<Rightarrow> string \<Rightarrow> string \<times> string" where
  "split_once c s = (takeWhile (\<lambda>x. x \<noteq> c) s, drop 1 (dropWhile (\<lambda>x. x \<noteq> c) s))"

text \<open>\<open>"%d" % n\<close> for an integer \<open>n\<close>: its decimal digits, with a minus sign when negative.\<close>

definition digit_char :: "nat \<Rightarrow> char" where
  "digit_char d = char_of (48 + d)"

fun nat_digits :: "nat \<Rightarrow> string" where
  "nat_digits n = (if n < 10 then [digit_char n] else nat_digits (n div 10) @ [digit_char (n mod 10)])"

declare nat_digits.simps [simp del]

definition format_d :: "int \<Rightarrow> string" where
  "format_d n = (if n < 0 then CHR ''-'' # nat_digits (nat (- n)) else nat_digits (nat n))"

text \<open>
  \<open>int(s)\<close> on a string: surrounding whitespace is stripped, one sign is allowed, and the
  rest is a non-empty run of decimal digits in which single underscores may separate
  digits. Anything else raises \<open>ValueError\<close>, the value \<open>None\<close> here. (Digits outside
  ASCII are not modelled.)
\<close>

definition is_space :: "char \<Rightarrow> bool" where
  "is_space c = (c \<in> set [CHR 0x20, CHR 0x09, CHR 0x0A, CHR 0x0B, CHR 0x0C, CHR 0x0D,
                            CHR 0x1C, CHR 0x1D, CHR 0x1E, CHR 0x1F])"

definition is_digit :: "char \<Rightarrow> bool" where
  "is_digit c = (CHR ''0'' \<le> c \<and> c \<le> CHR ''9'')"

definition digit_val :: "char \<Rightarrow> int" where
  "digit_val c = int (of_char c) - 48"

definition strip :: "string \<Rightarrow> string" where
  "strip s = rev (dropWhile is_space (rev (dropWhile is_space s)))"

text \<open>\<open>digits_value acc prev s\<close>: \<open>prev\<close> says that the character before \<open>s\<close> was a digit
  (an underscore is allowed only between two digits).\<close>

fun digits_value :: "int \<Rightarrow> bool \<Rightarrow> string \<Rightarrow> int option" where
  "digits_value acc prev [] = (if prev then Some acc else None)"
| "digits_value acc prev (c # cs) =
     (if is_digit c then digits_value (10 * acc + digit_val c) True cs
      else if c = CHR ''_'' \<and> prev \<and> cs \<noteq> [] \<and> is_digit (hd cs) then digits_value acc False cs
      else None)"

definition py_int :: "string \<Rightarrow> int option" where
  "py_int s =
     (case strip s of
        [] \<Rightarrow> None
      | c # cs \<Rightarrow>
          if c = CHR ''-'' then map_option uminus (digits_value 0 False cs)
          else if c = CHR ''+'' then digits_value 0 False cs
          else digits_value 0 False (c # cs))"

section \<open>The session snapshot (tmux.py)\<close>

record pane_context =
  pc_command :: string
  pc_cmdline :: string
  pc_directory :: string
  pc_full_path :: string
  pc_title :: string

record window_context =
  wc_id :: string
  wc_index :: int
  wc_name :: string
  wc_panes :: "pane_context list"

record session_context =
  sc_session_id :: string
  sc_session_path :: string
  sc_windows :: "window_context list"

section \<open>Plans (organize.py)\<close>

text \<open>
  \<open>WindowPlan\<close> is a typed dictionary with the keys \<open>id\<close>, \<open>name\<close> and \<open>index\<close>.
  A plan is a dictionary read from JSON: \<open>validate_plan\<close> tests for its two top-level keys,
  so each of them is optional here; \<open>op_other_keys\<close> are the names of further top-level
  keys, whose values the program never reads (they only make the dictionary non-empty).
\<close>

record window_plan =
  wp_id :: string
  wp_name :: string
  wp_index :: int

record organize_plan =
  op_session :: "string option"
  op_windows :: "window_plan list option"
  op_other_keys :: "string list"

section \<open>SHA-256 (hashlib.sha256)\<close>

text \<open>
  The digest of the Python standard library, written out from FIPS 180-4 over 32-bit words
  so that the fingerprint of a concrete snapshot can be computed. The round constants and
  the initial hash value are given in decimal.
\<close>

definition K256 :: "32 word list" where
  "K256 =
   [1116352408, 1899447441, 3049323471, 3921009573, 961987163, 1508970993, 2453635748,
    2870763221, 3624381080, 310598401, 607225278, 1426881987, 1925078388, 2162078206,
    2614888103, 3248222580, 3835390401, 4022224774, 264347078, 604807628, 770255983,
    1249150122, 1555081692, 1996064986, 2554220882, 2821834349, 2952996808, 3210313671,
    3336571891, 3584528711, 113926993, 338241895, 666307205, 773529912, 1294757372,
    1396182291, 1695183700, 1986661051, 2177026350, 2456956037, 2730485921, 2820302411,
    3259730800, 3345764771, 3516065817, 3600352804, 4094571909, 275423344, 430227734,
    506948616, 659060556, 883997877, 958139571, 1322822218, 1537002063, 1747873779,
    1955562222, 2024104815, 2227730452, 2361852424, 2428436474, 2756734187, 3204031479,
    3329325298]"

definition H256 :: "32 word list" where
  "H256 = [1779033703, 3144134277, 1013904242, 2773480762, 1359893119, 2600822924,
           528734635, 1541459225]"

definition rotr :: "nat \<Rightarrow> 32 word \<Rightarrow> 32 word" where
  "rotr n x = drop_bit n x OR push_bit (32 - n) x"

definition big_sigma0 :: "32 word \<Rightarrow> 32 word" where
  "big_sigma0 x = rotr 2 x XOR rotr 13 x XOR rotr 22 x"

definition big_sigma1 :: "32 word \<Rightarrow> 32 word" where
  "big_sigma1 x = rotr 6 x XOR rotr 11 x XOR rotr 25 x"

definition small_sigma0 :: "32 word \<Rightarrow> 32 word" where
  "small_sigma0 x = rotr 7 x XOR rotr 18 x XOR drop_bit 3 x"

definition small_sigma1 :: "32 word \<Rightarrow> 32 word" where
  "small_sigma1 x = rotr 17 x XOR rotr 19 x XOR drop_bit 10 x"

definition ch :: "32 word \<Rightarrow> 32 word \<Rightarrow> 32 word \<Rightarrow> 32 word" where
  "ch x y z = (x AND y) XOR (NOT x AND z)"

definition maj :: "32 word \<Rightarrow> 32 word \<Rightarrow> 32 word \<Rightarrow> 32 word" where
  "maj x y z = (x AND y) XOR (x AND z) XOR (y AND z)"

text \<open>The message schedule: \<open>schedule 48\<close> extends the 16 words of a block to 64.\<close>

fun schedule :: "nat \<Rightarrow> 32 word list \<Rightarrow> 32 word list" where
  "schedule 0 w = w"
| "schedule (Suc n) w =
     (let t = length w in
      schedule n (w @ [small_sigma1 (w ! (t - 2)) + w ! (t - 7)
                       + small_sigma0 (w ! (t - 15)) + w ! (t - 16)]))"

fun round256 :: "32 word list \<Rightarrow> 32 word \<times> 32 word \<Rightarrow> 32 word list" where
  "round256 [a, b, c, d, e, f, g, h] (k, w) =
     (let t1 = h + big_sigma1 e + ch e f g + k + w;
          t2 = big_sigma0 a + maj a b c
      in [t1 + t2, a, b, c, d + t1, e, f, g])"
| "round256 s kw = s"

definition compress :: "32 word list \<Rightarrow> 32 word list \<Rightarrow> 32 word list" where
  "compress hs block = map2 (+) hs (foldl round256 hs (zip K256 (schedule 48 block)))"

fun be_words :: "8 word list \<Rightarrow> 32 word list" where
  "be_words (a # b # c # d # rest) =
     (push_bit 24 (ucast a) OR push_bit 16 (ucast b) OR push_bit 8 (ucast c) OR ucast d)
       # be_words rest"
| "be_words bs = []"

definition pad :: "8 word list \<Rightarrow> 8 word list" where
  "pad m =
     (let l = length m; z = (119 - l mod 64) mod 64 in
      m @ [128] @ replicate z 0
        @ map (\<lambda>i. ucast (drop_bit (8 * i) (of_nat (8 * l) :: 64 word))) [7, 6, 5, 4, 3, 2, 1, 0])"

fun blocks :: "nat \<Rightarrow> 32 word list \<Rightarrow> 32 word list list" where
  "blocks 0 ws = []"
| "blocks (Suc n) ws = take 16 ws # blocks n (drop 16 ws)"

definition sha256 :: "8 word list \<Rightarrow> 32 word list" where
  "sha256 m = (let ws = be_words (pad m) in foldl compress H256 (blocks (length ws div 16) ws))"

definition hex_digit :: "nat \<Rightarrow> char" where
  "hex_digit n = ''0123456789abcdef'' ! (n mod 16)"

definition hex_word :: "32 word \<Rightarrow> string" where
  "hex_word w = map (\<lambda>i. hex_digit (unat (drop_bit (4 * i) w AND 15))) [7, 6, 5, 4, 3, 2, 1, 0]"

text \<open>\<open>hashlib.sha256(s.encode()).hexdigest()\<close>\<close>

definition sha256_hexdigest :: "string \<Rightarrow> string" where
  "sha256_hexdigest s = concat (map hex_word (sha256 (map (\<lambda>c. of_nat (of_char c)) s)))"

section \<open>The plan cache key (organize.py, build_cache_key)\<close>

text \<open>The generator inside \<open>sorted(...)\<close>: \<open>"%(cmdline)s:%(path)s"\<close> with
  \<open>p["cmdline"] or p["command"]\<close> and \<open>p["full_path"]\<close>.\<close>

definition pane_fingerprint :: "pane_context \<Rightarrow> string" where
  "pane_fingerprint p =
     (if pc_cmdline p \<noteq> [] then pc_cmdline p else pc_command p) @ '':'' @ pc_full_path p"

text \<open>One element of \<open>stable_parts\<close>: \<open>"%(name)s|%(panes)s"\<close>.\<close>

definition stable_part :: "window_context \<Rightarrow> string" where
  "stable_part w =
     wc_name w @ ''|'' @ join_str ''|'' (sort (map pane_fingerprint (wc_panes w)))"

definition raw_key :: "session_context \<Rightarrow> string \<Rightarrow> string" where
  "raw_key ctx opencode_context =
     sc_session_path ctx @ '';'' @ join_str '';'' (map stable_part (sc_windows ctx))
       @ '';'' @ opencode_context"

definition build_cache_key :: "session_context \<Rightarrow> string \<Rightarrow> string" where
  "build_cache_key ctx opencode_context = take 16 (sha256_hexdigest (raw_key ctx opencode_context))"

text \<open>
  The fingerprint as the specification words it: each window contributes its name and the
  sorted \<^emph>\<open>set\<close> of its panes' descriptor strings.
\<close>

definition spec_stable_part :: "window_context \<Rightarrow> string" where
  "spec_stable_part w =
     wc_name w @ ''|'' @ join_str ''|'' (sorted_list_of_set (set (map pane_fingerprint (wc_panes w))))"

definition spec_cache_key :: "session_context \<Rightarrow> string \<Rightarrow> string" where
  "spec_cache_key ctx opencode_context =
     take 16 (sha256_hexdigest
       (sc_session_path ctx @ '';'' @ join_str '';'' (map spec_stable_part (sc_windows ctx))
          @ '';'' @ opencode_context))"

section \<open>Plan validation (organize.py, validate_plan)\<close>

text \<open>
  The result is \<open>None\<close> for a valid plan and the diagnostic otherwise. Python sets are HOL
  sets: \<open>context_ids - plan_ids\<close> is set difference, \<open>sorted\<close> of a set is
  \<^const>\<open>sorted_list_of_set\<close>, and \<open>len(set(plan_indices))\<close> is the cardinality.
\<close>

definition validate_plan :: "organize_plan \<Rightarrow> session_context \<Rightarrow> string option" where
  "validate_plan plan ctx =
     (case (op_session plan, op_windows plan) of
        (Some session_name, Some windows) \<Rightarrow>
          (let context_ids = set (map wc_id (sc_windows ctx));
               plan_ids = set (map wp_id windows);
               plan_indices = map wp_index windows
           in if context_ids \<noteq> plan_ids then
                (let missing = context_ids - plan_ids;
                     extra = plan_ids - context_ids;
                     parts =
                       (if missing \<noteq> {} then [''missing '' @ join_str '','' (sorted_list_of_set missing)]
                        else [])
                       @ (if extra \<noteq> {} then [''extra '' @ join_str '','' (sorted_list_of_set extra)]
                          else [])
                 in Some (''window id mismatch: '' @ join_str ''; '' parts))
              else if length plan_indices \<noteq> card (set plan_indices) then Some ''duplicate indices''
              else None)
      | _ \<Rightarrow> Some ''missing session/windows keys'')"

section \<open>Plan application (organize.py, apply_organization_plan)\<close>

text \<open>
  The tmux commands the program issues through \<open>run\<close>. A target \<open>"%(sid)s:%(idx)d"\<close> is kept
  as the pair of the session id and the index.
\<close>

datatype tmux_cmd =
    RenameWindow string string          \<comment> \<open>\<open>rename-window -t id name\<close>\<close>
  | MoveWindowById string string int    \<comment> \<open>\<open>move-window -s id -t sid:idx\<close>\<close>
  | MoveWindowByIndex string int int    \<comment> \<open>\<open>move-window -s sid:src -t sid:dst\<close>\<close>
  | RenameSession string string         \<comment> \<open>\<open>rename-session -t sid name\<close>\<close>
  | SetOption string string string      \<comment> \<open>\<open>set-option -t sid key value\<close>\<close>
  | UnsetOption string string           \<comment> \<open>\<open>set-option -t sid -u key\<close>\<close>

text \<open>
  The commands issued, in order, and whether the function then raised \<open>KeyError\<close>:
  \<open>plan["windows"]\<close> is read first, \<open>plan["session"]\<close> only after every move.
\<close>

definition apply_organization_plan :: "string \<Rightarrow> organize_plan \<Rightarrow> tmux_cmd list \<times> bool" where
  "apply_organization_plan session_id plan =
     (case op_windows plan of
        None \<Rightarrow> ([], True)
      | Some windows \<Rightarrow>
          (let renames = map (\<lambda>w. RenameWindow (wp_id w) (wp_name w)) windows;
               to_temp = map (\<lambda>(i, w). MoveWindowById (wp_id w) session_id (900 + int i))
                           (enumerate 0 windows);
               to_target = map (\<lambda>(i, w). MoveWindowByIndex session_id (900 + int i) (wp_index w))
                             (enumerate 0 windows)
           in case op_session plan of
                None \<Rightarrow> (renames @ to_temp @ to_target, True)
              | Some name \<Rightarrow> (renames @ to_temp @ to_target @ [RenameSession session_id name], False)))"

subsection \<open>The session the commands act on\<close>

text \<open>
  Modelled from the spec: the multiplexer is an external collaborator. The specification
  says of it that window indices within a session are unique at all times and that moving a
  window onto an index another window occupies fails. A session is the list of its windows,
  each the pair of its index and its id; \<open>run\<close> discards a command's failure, so a failed
  move leaves the session as it was and the program carries on.
\<close>

type_synonym layout = "(int \<times> string) list"

definition occupied :: "layout \<Rightarrow> int \<Rightarrow> bool" where
  "occupied L i = (i \<in> fst ` set L)"

text \<open>A move collides when its target index holds a window at the moment it is issued.\<close>

fun collides :: "layout \<Rightarrow> tmux_cmd \<Rightarrow> bool" where
  "collides L (MoveWindowById wid sid dst) = occupied L dst"
| "collides L (MoveWindowByIndex sid src dst) = occupied L dst"
| "collides L c = False"

fun tmux_step :: "layout \<Rightarrow> tmux_cmd \<Rightarrow> layout" where
  "tmux_step L (MoveWindowById wid sid dst) =
     (if occupied L dst then L else map (\<lambda>(i, w). if w = wid then (dst, w) else (i, w)) L)"
| "tmux_step L (MoveWindowByIndex sid src dst) =
     (if occupied L dst then L else map (\<lambda>(i, w). if i = src then (dst, w) else (i, w)) L)"
| "tmux_step L c = L"

text \<open>The moves of a command sequence that collide, each judged in the session it meets.\<close>

fun collisions :: "layout \<Rightarrow> tmux_cmd list \<Rightarrow> tmux_cmd list" where
  "collisions L [] = []"
| "collisions L (c # cs) = (if collides L c then [c] else []) @ collisions (tmux_step L c) cs"

definition tmux_run :: "layout \<Rightarrow> tmux_cmd list \<Rightarrow> layout" where
  "tmux_run L cs = foldl tmux_step L cs"

section \<open>JSON documents (json.loads)\<close>

text \<open>
  The parser of the Python standard library, written out from the JSON grammar as that
  library reads it: one value with optional whitespace around it, the literals \<open>NaN\<close>,
  \<open>Infinity\<close> and \<open>-Infinity\<close> accepted, control characters refused inside strings, and a
  repeated key of an object keeping its first position and its last value. A number with
  a fraction or an exponent is kept as its text. \<open>None\<close> is \<open>JSONDecodeError\<close>.
\<close>

datatype json =
    JNull
  | JBool bool
  | JInt int
  | JFloat string
  | JStr string
  | JArr "json list"
  | JObj "(string \<times> json) list"

datatype token =
    TLBrace | TRBrace | TLBracket | TRBracket | TColon | TComma
  | TStr string
  | TLit json

fun dict_set :: "'k \<Rightarrow> 'v \<Rightarrow> ('k \<times> 'v) list \<Rightarrow> ('k \<times> 'v) list" where
  "dict_set k v [] = [(k, v)]"
| "dict_set k v ((k', v') # m) = (if k' = k then (k, v) # m else (k', v') # dict_set k v m)"

definition is_json_ws :: "char \<Rightarrow> bool" where
  "is_json_ws c = (c \<in> set [CHR 0x20, CHR 0x09, CHR 0x0A, CHR 0x0D])"

definition is_num_char :: "char \<Rightarrow> bool" where
  "is_num_char c = (is_digit c \<or> c \<in> set ''+-.eE'')"

definition hex_val :: "char \<Rightarrow> nat option" where
  "hex_val c =
     (if is_digit c then Some (of_char c - 48)
      else if CHR ''a'' \<le> c \<and> c \<le> CHR ''f'' then Some (of_char c - 87)
      else if CHR ''A'' \<le> c \<and> c \<le> CHR ''F'' then Some (of_char c - 55)
      else None)"

text \<open>The UTF-8 bytes of a code point below \<open>0x10000\<close> (a \<open>\uXXXX\<close> escape; surrogate
  pairs are not joined).\<close>

definition utf8 :: "nat \<Rightarrow> string" where
  "utf8 n =
     (if n < 128 then [char_of n]
      else if n < 2048 then [char_of (192 + n div 64), char_of (128 + n mod 64)]
      else [char_of (224 + n div 4096), char_of (128 + (n div 64) mod 64), char_of (128 + n mod 64)])"

text \<open>The number grammar: \<open>-?(0|[1-9][0-9]*)(\.[0-9]+)?([eE][-+]?[0-9]+)?\<close>.\<close>

definition json_number :: "string \<Rightarrow> json option" where
  "json_number s =
     (let body = (if s \<noteq> [] \<and> hd s = CHR ''-'' then tl s else s);
          ds = takeWhile is_digit body;
          r1 = dropWhile is_digit body;
          has_frac = (r1 \<noteq> [] \<and> hd r1 = CHR ''.'');
          fs = (if has_frac then takeWhile is_digit (tl r1) else []);
          r2 = (if has_frac then dropWhile is_digit (tl r1) else r1);
          has_exp = (r2 \<noteq> [] \<and> (hd r2 = CHR ''e'' \<or> hd r2 = CHR ''E''));
          r3 = (if has_exp then tl r2 else r2);
          r4 = (if has_exp \<and> r3 \<noteq> [] \<and> (hd r3 = CHR ''+'' \<or> hd r3 = CHR ''-'') then tl r3 else r3)
      in if ds = [] \<or> (hd ds = CHR ''0'' \<and> length ds \<noteq> 1) then None
         else if has_frac \<and> fs = [] then None
         else if has_exp \<and> (r4 = [] \<or> \<not> list_all is_digit r4) then None
         else if \<not> has_exp \<and> r2 \<noteq> [] then None
         else if has_frac \<or> has_exp then Some (JFloat s)
         else (case digits_value 0 False ds of
                 None \<Rightarrow> None
               | Some n \<Rightarrow> Some (JInt (if body = s then n else - n))))"

text \<open>
  The lexer: \<open>lex\<close> between tokens, \<open>lex_str\<close> inside a string literal, \<open>lex_num\<close> inside a
  number. The tokens read so far and the characters of the current literal are kept in
  reverse.
\<close>

fun lex :: "token list \<Rightarrow> string \<Rightarrow> token list option"
  and lex_str :: "token list \<Rightarrow> string \<Rightarrow> string \<Rightarrow> token list option"
  and lex_num :: "token list \<Rightarrow> string \<Rightarrow> string \<Rightarrow> token list option"
where
  "lex acc [] = Some (rev acc)"
| "lex acc (c # cs) =
     (if is_json_ws c then lex acc cs
      else if c = CHR ''{'' then lex (TLBrace # acc) cs
      else if c = CHR ''}'' then lex (TRBrace # acc) cs
      else if c = CHR ''['' then lex (TLBracket # acc) cs
      else if c = CHR '']'' then lex (TRBracket # acc) cs
      else if c = CHR '':'' then lex (TColon # acc) cs
      else if c = CHR '','' then lex (TComma # acc) cs
      else if c = CHR 0x22 then lex_str acc [] cs
      else if c = CHR ''t'' then
        (case cs of a # b # d # rest \<Rightarrow>
           if [a, b, d] = ''rue'' then lex (TLit (JBool True) # acc) rest else None
         | _ \<Rightarrow> None)
      else if c = CHR ''f'' then
        (case cs of a # b # d # e # rest \<Rightarrow>
           if [a, b, d, e] = ''alse'' then lex (TLit (JBool False) # acc) rest else None
         | _ \<Rightarrow> None)
      else if c = CHR ''n'' then
        (case cs of a # b # d # rest \<Rightarrow>
           if [a, b, d] = ''ull'' then lex (TLit JNull # acc) rest else None
         | _ \<Rightarrow> None)
      else if c = CHR ''N'' then
        (case cs of a # b # rest \<Rightarrow>
           if [a, b] = ''aN'' then lex (TLit (JFloat ''NaN'') # acc) rest else None
         | _ \<Rightarrow> None)
      else if c = CHR ''I'' then
        (case cs of a # b # d # e # f # g # h # rest \<Rightarrow>
           if [a, b, d, e, f, g, h] = ''nfinity'' then lex (TLit (JFloat ''Infinity'') # acc) rest
           else None
         | _ \<Rightarrow> None)
      else if c = CHR ''-'' \<and> take 8 cs = ''Infinity'' then
        (case cs of a # b # d # e # f # g # h # i # rest \<Rightarrow>
           lex (TLit (JFloat ''-Infinity'') # acc) rest
         | _ \<Rightarrow> None)
      else if is_num_char c then lex_num acc [c] cs
      else None)"
| "lex_str acc s [] = None"
| "lex_str acc s (c # cs) =
     (if c = CHR 0x22 then lex (TStr (rev s) # acc) cs
      else if c = CHR 0x5C then
        (case cs of
           [] \<Rightarrow> None
         | e # rest \<Rightarrow>
             if e = CHR 0x22 \<or> e = CHR 0x5C \<or> e = CHR ''/'' then lex_str acc (e # s) rest
             else if e = CHR ''b'' then lex_str acc (CHR 0x08 # s) rest
             else if e = CHR ''f'' then lex_str acc (CHR 0x0C # s) rest
             else if e = CHR ''n'' then lex_str acc (CHR 0x0A # s) rest
             else if e = CHR ''r'' then lex_str acc (CHR 0x0D # s) rest
             else if e = CHR ''t'' then lex_str acc (CHR 0x09 # s) rest
             else if e = CHR ''u'' then
               (case rest of
                  h1 # h2 # h3 # h4 # rest' \<Rightarrow>
                    (case (hex_val h1, hex_val h2, hex_val h3, hex_val h4) of
                       (Some a, Some b, Some d, Some g) \<Rightarrow>
                         lex_str acc (rev (utf8 (4096 * a + 256 * b + 16 * d + g)) @ s) rest'
                     | _ \<Rightarrow> None)
                | _ \<Rightarrow> None)
             else None)
      else if of_char c < (32 :: nat) then None
      else lex_str acc (c # s) cs)"
| "lex_num acc s [] =
     (case json_number (rev s) of None \<Rightarrow> None | Some v \<Rightarrow> Some (rev (TLit v # acc)))"
| "lex_num acc s (c # cs) =
     (if is_num_char c then lex_num acc (c # s) cs
      else (case json_number (rev s) of None \<Rightarrow> None | Some v \<Rightarrow> lex (TLit v # acc) (c # cs)))"

text \<open>
  The parser is a pushdown automaton over the tokens. A frame is an array or object under
  construction together with what may come next in it.
\<close>

datatype frame =
    ArrStart                                  \<comment> \<open>after \<open>[\<close>: a value or \<open>]\<close>\<close>
  | ArrVal "json list"                        \<comment> \<open>after a value: \<open>,\<close> or \<open>]\<close> (elements reversed)\<close>
  | ArrComma "json list"                      \<comment> \<open>after \<open>,\<close>: a value\<close>
  | ObjStart                                  \<comment> \<open>after \<open>{\<close>: a key or \<open>}\<close>\<close>
  | ObjKey "(string \<times> json) list" string      \<comment> \<open>after a key: \<open>:\<close>\<close>
  | ObjColon "(string \<times> json) list" string    \<comment> \<open>after \<open>:\<close>: a value\<close>
  | ObjVal "(string \<times> json) list"             \<comment> \<open>after a value: \<open>,\<close> or \<open>}\<close>\<close>
  | ObjComma "(string \<times> json) list"           \<comment> \<open>after \<open>,\<close>: a key\<close>

datatype pstate = PStart | PStack "frame list" | PDone json

text \<open>A complete value arrives where the frames \<open>st\<close> are open.\<close>

fun deliver :: "json \<Rightarrow> frame list \<Rightarrow> pstate option" where
  "deliver v [] = Some (PDone v)"
| "deliver v (ArrStart # st) = Some (PStack (ArrVal [v] # st))"
| "deliver v (ArrComma xs # st) = Some (PStack (ArrVal (v # xs) # st))"
| "deliver v (ObjColon kvs k # st) = Some (PStack (ObjVal (dict_set k v kvs) # st))"
| "deliver v (f # st) = None"

fun frames :: "pstate \<Rightarrow> frame list option" where
  "frames PStart = Some []"
| "frames (PStack st) = Some st"
| "frames (PDone v) = None"

fun expects_value :: "frame list \<Rightarrow> bool" where
  "expects_value [] = True"
| "expects_value (ArrStart # st) = True"
| "expects_value (ArrComma xs # st) = True"
| "expects_value (ObjColon kvs k # st) = True"
| "expects_value (f # st) = False"

fun parse_step :: "pstate \<Rightarrow> token \<Rightarrow> pstate option" where
  "parse_step p t =
     (case frames p of
        None \<Rightarrow> None
      | Some st \<Rightarrow>
          (case t of
             TLit v \<Rightarrow> deliver v st
           | TStr s \<Rightarrow>
               (case st of
                  ObjStart # r \<Rightarrow> Some (PStack (ObjKey [] s # r))
                | ObjComma kvs # r \<Rightarrow> Some (PStack (ObjKey kvs s # r))
                | _ \<Rightarrow> deliver (JStr s) st)
           | TLBrace \<Rightarrow> if expects_value st then Some (PStack (ObjStart # st)) else None
           | TLBracket \<Rightarrow> if expects_value st then Some (PStack (ArrStart # st)) else None
           | TRBracket \<Rightarrow>
               (case st of
                  ArrStart # r \<Rightarrow> deliver (JArr []) r
                | ArrVal xs # r \<Rightarrow> deliver (JArr (rev xs)) r
                | _ \<Rightarrow> None)
           | TRBrace \<Rightarrow>
               (case st of
                  ObjStart # r \<Rightarrow> deliver (JObj []) r
                | ObjVal kvs # r \<Rightarrow> deliver (JObj kvs) r
                | _ \<Rightarrow> None)
           | TComma \<Rightarrow>
               (case st of
                  ArrVal xs # r \<Rightarrow> Some (PStack (ArrComma xs # r))
                | ObjVal kvs # r \<Rightarrow> Some (PStack (ObjComma kvs # r))
                | _ \<Rightarrow> None)
           | TColon \<Rightarrow>
               (case st of
                  ObjKey kvs k # r \<Rightarrow> Some (PStack (ObjColon kvs k # r))
                | _ \<Rightarrow> None)))"

fun parse_tokens :: "pstate \<Rightarrow> token list \<Rightarrow> pstate option" where
  "parse_tokens p [] = Some p"
| "parse_tokens p (t # ts) = (case parse_step p t of None \<Rightarrow> None | Some p' \<Rightarrow> parse_tokens p' ts)"

definition json_loads :: "string \<Rightarrow> json option" where
  "json_loads s =
     (case lex [] s of
        None \<Rightarrow> None
      | Some ts \<Rightarrow> (case parse_tokens PStart ts of Some (PDone v) \<Rightarrow> Some v | _ \<Rightarrow> None))"

section \<open>Extracting the plan from the service's output (organize.py)\<close>

text \<open>\<open>text.find(c)\<close>, with \<open>None\<close> for \<open>-1\<close>.\<close>

definition find_char :: "char \<Rightarrow> string \<Rightarrow> nat option" where
  "find_char c text = (if c \<in> set text then Some (length (takeWhile (\<lambda>x. x \<noteq> c) text)) else None)"

text \<open>
  The loop \<open>for i in range(start, len(text))\<close>: \<open>scan_braces depth i cs\<close> is at index \<open>i\<close>
  with \<open>cs\<close> the text from there on, and returns the index at which the depth comes back to
  zero.
\<close>

fun scan_braces :: "int \<Rightarrow> nat \<Rightarrow> string \<Rightarrow> nat option" where
  "scan_braces depth i [] = None"
| "scan_braces depth i (c # cs) =
     (let depth1 = (if c = CHR ''{'' then depth + 1 else depth) in
      if c = CHR ''}'' then
        (if depth1 - 1 = 0 then Some i else scan_braces (depth1 - 1) (i + 1) cs)
      else scan_braces depth1 (i + 1) cs)"

text \<open>
  \<open>loads\<close> is \<open>json.loads\<close>, \<open>None\<close> when it raises \<open>JSONDecodeError\<close>; the function is
  written for any parser, and \<^const>\<open>json_loads\<close> is the one of the standard library.
  \<open>text[start : i + 1]\<close> is \<open>take (i + 1 - start) (drop start text)\<close>.
\<close>

definition extract_json_from_output :: "(string \<Rightarrow> 'a option) \<Rightarrow> string \<Rightarrow> 'a option" where
  "extract_json_from_output loads text =
     (case find_char CHR ''{'' text of
        None \<Rightarrow> None
      | Some start \<Rightarrow>
          (case scan_braces 0 start (drop start text) of
             None \<Rightarrow> None
           | Some i \<Rightarrow> loads (take (i + 1 - start) (drop start text))))"

text \<open>
  The extraction as the specification words it: the first brace-delimited substring whose
  braces balance to zero net depth and which parses. Candidates are taken by their opening
  brace, then by their closing brace.
\<close>

definition net_depth :: "string \<Rightarrow> int" where
  "net_depth s = int (count_list s CHR ''{'') - int (count_list s CHR ''}'')"

definition spec_candidates :: "string \<Rightarrow> string list" where
  "spec_candidates text =
     concat (map (\<lambda>s. if text ! s = CHR ''{''
                       then concat (map (\<lambda>e. if text ! e = CHR ''}''
                                                  \<and> net_depth (take (e + 1 - s) (drop s text)) = 0
                                               then [take (e + 1 - s) (drop s text)] else [])
                                     [s ..< length text])
                       else [])
                 [0 ..< length text])"

definition spec_extract :: "(string \<Rightarrow> 'a option) \<Rightarrow> string \<Rightarrow> 'a option" where
  "spec_extract loads text =
     (case filter (\<lambda>c. loads c \<noteq> None) (spec_candidates text) of
        [] \<Rightarrow> None
      | c # cs \<Rightarrow> loads c)"

subsection \<open>External processes\<close>

text \<open>
  What \<open>subprocess.run\<close> did: the process ended with an exit status and an output, the
  call timed out, the executable was not found, or another exception was raised.
\<close>

datatype proc_result =
    Completed int string
  | TimeoutExpired
  | FileNotFoundError
  | OtherError string

datatype 'a result = Returns 'a | Raises string

text \<open>
  \<open>ask_model_for_plan\<close>, given what running the service did. Only the timeout is caught;
  the exit status is not looked at.
\<close>

definition ask_model_for_plan ::
  "(string \<Rightarrow> 'a option) \<Rightarrow> proc_result \<Rightarrow> ('a option \<times> string option) result" where
  "ask_model_for_plan loads r =
     (case r of
        TimeoutExpired \<Rightarrow> Returns (None, Some ''opencode timed out'')
      | Completed rc out \<Rightarrow>
          (case extract_json_from_output loads out of
             None \<Rightarrow> Returns (None, Some ''no json in model output'')
           | Some plan \<Rightarrow> Returns (Some plan, None))
      | FileNotFoundError \<Rightarrow> Raises ''FileNotFoundError''
      | OtherError e \<Rightarrow> Raises e)"

section \<open>Agent-session enrichment (organize.py)\<close>

text \<open>
  \<open>query_opencode_sessions\<close>, given what running \<open>otop sessions\<close> did; \<open>loads\<close> is
  \<open>json.loads\<close> read at the type of the record list.
\<close>

definition query_opencode_sessions ::
  "(string \<Rightarrow> 'a list option) \<Rightarrow> proc_result \<Rightarrow> 'a list result" where
  "query_opencode_sessions loads r =
     (case r of
        Completed rc out \<Rightarrow>
          if rc \<noteq> 0 then Returns []
          else (case loads out of Some sessions \<Rightarrow> Returns sessions | None \<Rightarrow> Returns [])
      | TimeoutExpired \<Rightarrow> Returns []
      | FileNotFoundError \<Rightarrow> Returns []
      | OtherError e \<Rightarrow> Raises e)"

text \<open>
  A record of \<open>otop sessions\<close>. \<open>oc_tmux_pane\<close> is \<open>None\<close> when the key is absent or null;
  \<open>oc_session\<close> is \<open>None\<close> when the key is absent or its dictionary is empty (both are
  falsy), and otherwise holds the four keys the program reads, each optional.
\<close>

record session_data =
  sd_title :: "string option"
  sd_status :: "string option"
  sd_message_count :: "int option"
  sd_model :: "string option"

record oc_record =
  oc_tmux_pane :: "string option"
  oc_session :: "session_data option"

text \<open>One turn of the loop over the records: \<open>window_sessions\<close> after it.\<close>

definition match_record ::
  "string \<Rightarrow> (int \<times> session_data) list \<Rightarrow> oc_record \<Rightarrow> (int \<times> session_data) list" where
  "match_record session_name window_sessions oc =
     (case oc_tmux_pane oc of
        None \<Rightarrow> window_sessions
      | Some pane_target \<Rightarrow>
          if pane_target = [] then window_sessions
          else if CHR '':'' \<notin> set pane_target then window_sessions
          else
            (let (target_session, rest) = split_once CHR '':'' pane_target in
             if target_session \<noteq> session_name then window_sessions
             else
               (let window_idx_str =
                      (if CHR ''.'' \<in> set rest then takeWhile (\<lambda>x. x \<noteq> CHR ''.'') rest else rest)
                in case py_int window_idx_str of
                     None \<Rightarrow> window_sessions
                   | Some window_idx \<Rightarrow>
                       (case oc_session oc of
                          None \<Rightarrow> window_sessions
                        | Some data \<Rightarrow> dict_set window_idx data window_sessions))))"

definition get_default :: "'a option \<Rightarrow> 'a \<Rightarrow> 'a" where
  "get_default v d = (case v of Some x \<Rightarrow> x | None \<Rightarrow> d)"

definition format_line :: "int \<times> session_data \<Rightarrow> string" where
  "format_line e =
     ''window '' @ format_d (fst e) @ '' has opencode session: '' @ [CHR 0x22]
       @ get_default (sd_title (snd e)) ''untitled'' @ [CHR 0x22] @ '' (''
       @ get_default (sd_status (snd e)) ''unknown'' @ '', ''
       @ format_d (get_default (sd_message_count (snd e)) 0) @ '' messages, model: ''
       @ get_default (sd_model (snd e)) ''?'' @ '')''"

text \<open>
  \<open>build_opencode_context\<close>; \<open>session_name_of\<close> is tmux's answer to
  \<open>display-message -t session_id -p "#S"\<close>. The keys of \<open>window_sessions\<close> are distinct, so
  \<open>sorted(window_sessions.items())\<close> orders by key.
\<close>

definition build_opencode_context ::
  "(string \<Rightarrow> string) \<Rightarrow> oc_record list \<Rightarrow> session_context \<Rightarrow> string" where
  "build_opencode_context session_name_of opencode_sessions ctx =
     (if opencode_sessions = [] then []
      else
        (let session_name = session_name_of (sc_session_id ctx);
             window_sessions = foldl (match_record session_name) [] opencode_sessions
         in if window_sessions = [] then []
            else join_str [CHR 0x0A] (map format_line (sort_key fst window_sessions))))"

text \<open>
  Matching as the specification and the docstring word it: a record matches a window of
  the snapshot when its pane target names the session and the window's index.
\<close>

definition record_matches_window :: "string \<Rightarrow> oc_record \<Rightarrow> window_context \<Rightarrow> bool" where
  "record_matches_window session_name oc w =
     (case oc_tmux_pane oc of
        None \<Rightarrow> False
      | Some pane_target \<Rightarrow>
          CHR '':'' \<in> set pane_target
          \<and> fst (split_once CHR '':'' pane_target) = session_name
          \<and> py_int (takeWhile (\<lambda>x. x \<noteq> CHR ''.'') (snd (split_once CHR '':'' pane_target)))
              = Some (wc_index w))"

section \<open>The organize run (organize.py, main)\<close>

text \<open>
  What the run does to the world, in order. \<open>Fork\<close> is the point where the parent exits
  with status 0 and the detached child carries on; \<open>Uncaught\<close> is an exception nothing
  catches.
\<close>

datatype effect =
    Tmux tmux_cmd
  | Print string
  | Fork
  | AskModel
  | WriteCache string organize_plan
  | Exit int
  | Uncaught string

text \<open>
  The answers of the collaborators: tmux's session id and session name, the snapshot,
  what running \<open>otop\<close> and the proposal service did, the two readings of \<open>json.loads\<close>, and
  what \<open>read_cached_plan\<close> finds under a key.
\<close>

record env =
  e_session_id :: string
  e_context :: session_context
  e_session_name_of :: "string \<Rightarrow> string"
  e_otop :: proc_result
  e_loads_sessions :: "string \<Rightarrow> oc_record list option"
  e_cache :: "string \<Rightarrow> organize_plan option"
  e_opencode :: proc_result
  e_loads_plan :: "string \<Rightarrow> organize_plan option"

text \<open>\<open>not plan\<close> for a dictionary: it has no key at all.\<close>

definition plan_falsy :: "organize_plan \<Rightarrow> bool" where
  "plan_falsy plan = (op_session plan = None \<and> op_windows plan = None \<and> op_other_keys plan = [])"

text \<open>\<open>if error:\<close> and \<open>if validation_error:\<close>: the value is a non-empty string.\<close>

definition truthy :: "string option \<Rightarrow> bool" where
  "truthy v = (case v of None \<Rightarrow> False | Some s \<Rightarrow> s \<noteq> [])"

text \<open>From \<open>validate_plan\<close> on: the plan is checked, cached when it is new, and applied.\<close>

definition validate_and_apply :: "env \<Rightarrow> string \<Rightarrow> bool \<Rightarrow> organize_plan \<Rightarrow> effect list" where
  "validate_and_apply e cache_key is_cached plan =
     (let session_id = e_session_id e;
          validation_error = validate_plan plan (e_context e)
      in if truthy validation_error then
           [Tmux (SetOption session_id ''@torganize'' (the validation_error)), Exit 1]
         else
           (if \<not> is_cached then [WriteCache cache_key plan] else [])
           @ (case apply_organization_plan session_id plan of
                (cmds, raised) \<Rightarrow>
                  map Tmux cmds
                  @ (if raised then [Uncaught ''KeyError'']
                     else [Tmux (UnsetOption session_id ''@torganize'')])))"

text \<open>
  The child after the fork: the cache is read; when it holds nothing, or an empty
  dictionary, the service is asked.
\<close>

definition main_child :: "env \<Rightarrow> string \<Rightarrow> effect list" where
  "main_child e opencode_context =
     (let session_id = e_session_id e;
          cache_key = build_cache_key (e_context e) opencode_context;
          cached = e_cache e cache_key;
          is_cached = (cached \<noteq> None)
      in case (case cached of None \<Rightarrow> None | Some p \<Rightarrow> if plan_falsy p then None else Some p) of
           Some plan \<Rightarrow> validate_and_apply e cache_key is_cached plan
         | None \<Rightarrow>
             AskModel #
             (case ask_model_for_plan (e_loads_plan e) (e_opencode e) of
                Raises x \<Rightarrow> [Uncaught x]
              | Returns (plan, error) \<Rightarrow>
                  if truthy error then
                    [Tmux (SetOption session_id ''@torganize'' (the error)), Exit 1]
                  else
                    (case plan of
                       None \<Rightarrow> [Uncaught ''AssertionError'']
                     | Some plan' \<Rightarrow> validate_and_apply e cache_key is_cached plan')))"

definition main :: "env \<Rightarrow> effect list" where
  "main e =
     (let session_id = e_session_id e in
      if session_id = [] then [Print ''not in a tmux session'', Exit 1]
      else
        (case query_opencode_sessions (e_loads_sessions e) (e_otop e) of
           Raises x \<Rightarrow> [Uncaught x]
         | Returns opencode_sessions \<Rightarrow>
             (let opencode_context =
                    build_opencode_context (e_session_name_of e) opencode_sessions (e_context e)
              in Tmux (SetOption session_id ''@torganize'' ''organizing...'') # Fork
                 # main_child e opencode_context)))"

text \<open>The commands that change the session: the renames and the moves of the applier.\<close>

fun changes_session :: "tmux_cmd \<Rightarrow> bool" where
  "changes_session (RenameWindow wid name) = True"
| "changes_session (MoveWindowById wid sid dst) = True"
| "changes_session (MoveWindowByIndex sid src dst) = True"
| "changes_session (RenameSession sid name) = True"
| "changes_session c = False"

text \<open>The enrichment text \<open>main\<close> computes before it forks.\<close>

definition enrichment_of :: "env \<Rightarrow> string" where
  "enrichment_of e =
     (case query_opencode_sessions (e_loads_sessions e) (e_otop e) of
        Raises x \<Rightarrow> []
      | Returns opencode_sessions \<Rightarrow>
          build_opencode_context (e_session_name_of e) opencode_sessions (e_context e))"

section \<open>Example snapshots and plans\<close>

text \<open>Small sessions and plans on which the theorems below are instantiated.\<close>

definition ex_window :: "string \<Rightarrow> int \<Rightarrow> window_context" where
  "ex_window wid i = \<lparr>wc_id = wid, wc_index = i, wc_name = ''bash'', wc_panes = []\<rparr>"

definition ex_context :: "window_context list \<Rightarrow> session_context" where
  "ex_context ws = \<lparr>sc_session_id = ''$0'', sc_session_path = ''/home/u'', sc_windows = ws\<rparr>"

definition ex_entry :: "string \<Rightarrow> string \<Rightarrow> int \<Rightarrow> window_plan" where
  "ex_entry wid n i = \<lparr>wp_id = wid, wp_name = n, wp_index = i\<rparr>"

definition ex_plan :: "window_plan list \<Rightarrow> organize_plan" where
  "ex_plan ws = \<lparr>op_session = Some ''proj'', op_windows = Some ws, op_other_keys = []\<rparr>"

definition ex_pane :: "string \<Rightarrow> string \<Rightarrow> pane_context" where
  "ex_pane cmdline path =
     \<lparr>pc_command = ''zsh'', pc_cmdline = cmdline, pc_directory = [], pc_full_path = path, pc_title = []\<rparr>"

definition ex_paned :: "string \<Rightarrow> pane_context list \<Rightarrow> window_context" where
  "ex_paned n ps = \<lparr>wc_id = ''@1'', wc_index = 0, wc_name = n, wc_panes = ps\<rparr>"

definition ex_session :: "window_context list \<Rightarrow> session_context" where
  "ex_session ws = \<lparr>sc_session_id = ''$0'', sc_session_path = ''/p'', sc_windows = ws\<rparr>"

text \<open>
  A run in a session of two windows in which \<open>otop\<close> is not installed, the cache is empty and
  the service's output parses to the plan \<open>p\<close>.
\<close>

definition ex_env :: "organize_plan \<Rightarrow> env" where
  "ex_env p =
     \<lparr>e_session_id = ''$0'',
      e_context = ex_context [ex_window ''@1'' 0, ex_window ''@2'' 1],
      e_session_name_of = (\<lambda>sid. ''work''),
      e_otop = FileNotFoundError,
      e_loads_sessions = (\<lambda>out. None),
      e_cache = (\<lambda>key. None),
      e_opencode = Completed 0 ''{}'',
      e_loads_plan = (\<lambda>out. Some p)\<rparr>"

text \<open>A record of an agent session in window 99 of the session \<open>work\<close>.\<close>

definition ex_record :: oc_record where
  "ex_record =
     \<lparr>oc_tmux_pane = Some ''work:99.1'',
      oc_session = Some \<lparr>sd_title = Some ''fix parser'', sd_status = None,
                          sd_message_count = None, sd_model = None\<rparr>\<rparr>"

section \<open>Validation: what is accepted and what each diagnostic says\<close>

lemmas ex_defs = ex_window_def ex_context_def ex_entry_def ex_plan_def

lemma validate_plan_keys:
  "op_session plan = None \<or> op_windows plan = None \<Longrightarrow>
   validate_plan plan ctx = Some ''missing session/windows keys''"
  by (auto simp: validate_plan_def split: option.splits)

lemma validate_plan_present:
  assumes "op_session plan = Some name" and "op_windows plan = Some windows"
  shows "validate_plan plan ctx =
     (let C = set (map wc_id (sc_windows ctx)); P = set (map wp_id windows) in
      if C \<noteq> P then
        Some (''window id mismatch: '' @ join_str ''; ''
           ((if C - P \<noteq> {} then [''missing '' @ join_str '','' (sorted_list_of_set (C - P))] else [])
            @ (if P - C \<noteq> {} then [''extra '' @ join_str '','' (sorted_list_of_set (P - C))] else [])))
      else if \<not> distinct (map wp_index windows) then Some ''duplicate indices''
      else None)"
proof -
  have "(length (map wp_index windows) \<noteq> card (set (map wp_index windows)))
          = (\<not> distinct (map wp_index windows))"
    using distinct_card card_distinct by metis
  then show ?thesis
    using assms unfolding validate_plan_def Let_def by simp
qed

text \<open>
  Claim C2, as amended. A plan is accepted exactly when both top-level keys are present, the
  set of its window ids is the set of the snapshot's window ids, and its indices are
  pairwise distinct. Otherwise the diagnostic names the cause: the missing keys; the
  missing ids, the extra ids or both, each list sorted; or the duplicate indices, which are
  reported only when the id sets agree.
\<close>

theorem validate_plan_complete:
  "((validate_plan plan ctx = None) =
      (\<exists>name windows. op_session plan = Some name \<and> op_windows plan = Some windows
         \<and> set (map wp_id windows) = set (map wc_id (sc_windows ctx))
         \<and> distinct (map wp_index windows)))
   \<and> (op_session plan = None \<or> op_windows plan = None \<longrightarrow>
        validate_plan plan ctx = Some ''missing session/windows keys'')
   \<and> (\<forall>name windows missing extra.
        op_session plan = Some name \<and> op_windows plan = Some windows
        \<and> missing = set (map wc_id (sc_windows ctx)) - set (map wp_id windows)
        \<and> extra = set (map wp_id windows) - set (map wc_id (sc_windows ctx)) \<longrightarrow>
        (missing \<noteq> {} \<and> extra = {} \<longrightarrow>
           validate_plan plan ctx =
             Some (''window id mismatch: missing '' @ join_str '','' (sorted_list_of_set missing)))
        \<and> (missing = {} \<and> extra \<noteq> {} \<longrightarrow>
           validate_plan plan ctx =
             Some (''window id mismatch: extra '' @ join_str '','' (sorted_list_of_set extra)))
        \<and> (missing \<noteq> {} \<and> extra \<noteq> {} \<longrightarrow>
           validate_plan plan ctx =
             Some (''window id mismatch: missing '' @ join_str '','' (sorted_list_of_set missing)
                   @ ''; extra '' @ join_str '','' (sorted_list_of_set extra)))
        \<and> (missing = {} \<and> extra = {} \<and> \<not> distinct (map wp_index windows) \<longrightarrow>
           validate_plan plan ctx = Some ''duplicate indices''))"
proof (intro conjI allI impI)
  show "(validate_plan plan ctx = None) =
      (\<exists>name windows. op_session plan = Some name \<and> op_windows plan = Some windows
         \<and> set (map wp_id windows) = set (map wc_id (sc_windows ctx))
         \<and> distinct (map wp_index windows))"
  proof (cases "op_session plan = None \<or> op_windows plan = None")
    case True
    then show ?thesis using validate_plan_keys[of plan ctx] by auto
  next
    case False
    then obtain name windows where k: "op_session plan = Some name" "op_windows plan = Some windows"
      by auto
    show ?thesis using k validate_plan_present[OF k, of ctx]
      by (auto simp: Let_def split: if_splits)
  qed
next
  assume "op_session plan = None \<or> op_windows plan = None"
  then show "validate_plan plan ctx = Some ''missing session/windows keys''"
    by (rule validate_plan_keys)
next
  fix name windows missing extra
  assume a: "op_session plan = Some name \<and> op_windows plan = Some windows
        \<and> missing = set (map wc_id (sc_windows ctx)) - set (map wp_id windows)
        \<and> extra = set (map wp_id windows) - set (map wc_id (sc_windows ctx))"
  assume b: "missing \<noteq> {} \<and> extra = {}"
  have "set (map wc_id (sc_windows ctx)) \<noteq> set (map wp_id windows)" using a b by auto
  then show "validate_plan plan ctx =
             Some (''window id mismatch: missing '' @ join_str '','' (sorted_list_of_set missing))"
    using a b validate_plan_present[of plan name windows ctx] by (simp add: Let_def)
next
  fix name windows missing extra
  assume a: "op_session plan = Some name \<and> op_windows plan = Some windows
        \<and> missing = set (map wc_id (sc_windows ctx)) - set (map wp_id windows)
        \<and> extra = set (map wp_id windows) - set (map wc_id (sc_windows ctx))"
  assume b: "missing = {} \<and> extra \<noteq> {}"
  have "set (map wc_id (sc_windows ctx)) \<noteq> set (map wp_id windows)" using a b by auto
  then show "validate_plan plan ctx =
             Some (''window id mismatch: extra '' @ join_str '','' (sorted_list_of_set extra))"
    using a b validate_plan_present[of plan name windows ctx] by (simp add: Let_def)
next
  fix name windows missing extra
  assume a: "op_session plan = Some name \<and> op_windows plan = Some windows
        \<and> missing = set (map wc_id (sc_windows ctx)) - set (map wp_id windows)
        \<and> extra = set (map wp_id windows) - set (map wc_id (sc_windows ctx))"
  assume b: "missing \<noteq> {} \<and> extra \<noteq> {}"
  have "set (map wc_id (sc_windows ctx)) \<noteq> set (map wp_id windows)" using a b by auto
  then show "validate_plan plan ctx =
             Some (''window id mismatch: missing '' @ join_str '','' (sorted_list_of_set missing)
                   @ ''; extra '' @ join_str '','' (sorted_list_of_set extra))"
    using a b validate_plan_present[of plan name windows ctx] by (simp add: Let_def)
next
  fix name windows missing extra
  assume a: "op_session plan = Some name \<and> op_windows plan = Some windows
        \<and> missing = set (map wc_id (sc_windows ctx)) - set (map wp_id windows)
        \<and> extra = set (map wp_id windows) - set (map wc_id (sc_windows ctx))"
  assume b: "missing = {} \<and> extra = {} \<and> \<not> distinct (map wp_index windows)"
  have "set (map wc_id (sc_windows ctx)) = set (map wp_id windows)" using a b by auto
  then show "validate_plan plan ctx = Some ''duplicate indices''"
    using a b validate_plan_present[of plan name windows ctx] by (simp add: Let_def)
qed

text \<open>The six outcomes on a session of two windows.\<close>

theorem validate_plan_complete_witness:
  "validate_plan (ex_plan [ex_entry ''@1'' ''code'' 1, ex_entry ''@2'' ''c'' 0])
       (ex_context [ex_window ''@1'' 0, ex_window ''@2'' 1]) = None
   \<and> validate_plan \<lparr>op_session = None, op_windows = Some [], op_other_keys = []\<rparr>
       (ex_context []) = Some ''missing session/windows keys''
   \<and> validate_plan (ex_plan [ex_entry ''@1'' ''code'' 1])
       (ex_context [ex_window ''@1'' 0, ex_window ''@2'' 1]) = Some ''window id mismatch: missing @2''
   \<and> validate_plan (ex_plan [ex_entry ''@1'' ''code'' 1, ex_entry ''@2'' ''c'' 0, ex_entry ''@3'' ''x'' 2])
       (ex_context [ex_window ''@1'' 0, ex_window ''@2'' 1]) = Some ''window id mismatch: extra @3''
   \<and> validate_plan (ex_plan [ex_entry ''@1'' ''code'' 1, ex_entry ''@3'' ''x'' 2])
       (ex_context [ex_window ''@1'' 0, ex_window ''@2'' 1])
         = Some ''window id mismatch: missing @2; extra @3''
   \<and> validate_plan (ex_plan [ex_entry ''@1'' ''code'' 1, ex_entry ''@2'' ''c'' 1])
       (ex_context [ex_window ''@1'' 0, ex_window ''@2'' 1]) = Some ''duplicate indices''"
  using
    validate_plan_complete[of "ex_plan [ex_entry ''@1'' ''code'' 1, ex_entry ''@2'' ''c'' 0]"
       "ex_context [ex_window ''@1'' 0, ex_window ''@2'' 1]"]
    validate_plan_complete[of "\<lparr>op_session = None, op_windows = Some [], op_other_keys = []\<rparr>"
       "ex_context []"]
    validate_plan_complete[of "ex_plan [ex_entry ''@1'' ''code'' 1]"
       "ex_context [ex_window ''@1'' 0, ex_window ''@2'' 1]"]
    validate_plan_complete[of "ex_plan [ex_entry ''@1'' ''code'' 1, ex_entry ''@2'' ''c'' 0, ex_entry ''@3'' ''x'' 2]"
       "ex_context [ex_window ''@1'' 0, ex_window ''@2'' 1]"]
    validate_plan_complete[of "ex_plan [ex_entry ''@1'' ''code'' 1, ex_entry ''@3'' ''x'' 2]"
       "ex_context [ex_window ''@1'' 0, ex_window ''@2'' 1]"]
    validate_plan_complete[of "ex_plan [ex_entry ''@1'' ''code'' 1, ex_entry ''@2'' ''c'' 1]"
       "ex_context [ex_window ''@1'' 0, ex_window ''@2'' 1]"]
  by (simp add: ex_defs insert_Diff_if)

text \<open>
  Claim C2 as stated fails: a plan without the \<open>session\<close> key is rejected although its id set
  is the snapshot's and its indices are distinct.
\<close>

theorem validate_plan_keys_counterexample:
  "validate_plan \<lparr>op_session = None, op_windows = Some [ex_entry ''@1'' ''code'' 0], op_other_keys = []\<rparr>
       (ex_context [ex_window ''@1'' 0]) \<noteq> None
   \<and> set (map wp_id [ex_entry ''@1'' ''code'' 0]) = set (map wc_id (sc_windows (ex_context [ex_window ''@1'' 0])))
   \<and> distinct (map wp_index [ex_entry ''@1'' ''code'' 0])"
  by (simp add: validate_plan_def ex_defs)

text \<open>
  Claim C9. A plan that lists one window id twice, at two indices, passes validation, with
  more entries than the session has windows: only the sets of ids are compared.
\<close>

theorem validate_plan_duplicate_ids:
  "\<exists>plan ctx windows.
     op_windows plan = Some windows
     \<and> validate_plan plan ctx = None
     \<and> \<not> distinct (map wp_id windows)
     \<and> distinct (map wp_index windows)
     \<and> length windows > length (sc_windows ctx)"
proof (intro exI conjI)
  let ?ws = "[ex_entry ''@1'' ''code'' 0, ex_entry ''@1'' ''c'' 1]"
  show "op_windows (ex_plan ?ws) = Some ?ws" by (simp add: ex_defs)
  show "validate_plan (ex_plan ?ws) (ex_context [ex_window ''@1'' 0]) = None"
    by (simp add: validate_plan_def ex_defs)
  show "\<not> distinct (map wp_id ?ws)" by (simp add: ex_defs)
  show "distinct (map wp_index ?ws)" by (simp add: ex_defs)
  show "length ?ws > length (sc_windows (ex_context [ex_window ''@1'' 0]))" by (simp add: ex_defs)
qed

section \<open>The cache key: what is hashed, and what leaves it unchanged\<close>

lemma sort_cong_mset:
  fixes xs ys :: "string list"
  assumes "mset xs = mset ys"
  shows "sort xs = sort ys"
  using assms by (metis properties_for_sort mset_sort sorted_sort)

lemma stable_part_cong:
  assumes "wc_name w' = wc_name w" and "mset (wc_panes w') = mset (wc_panes w)"
  shows "stable_part w' = stable_part w"
proof -
  have "mset (map pane_fingerprint (wc_panes w')) = mset (map pane_fingerprint (wc_panes w))"
    using assms(2) by (metis mset_map)
  then have "sort (map pane_fingerprint (wc_panes w')) = sort (map pane_fingerprint (wc_panes w))"
    by (rule sort_cong_mset)
  with assms(1) show ?thesis by (simp add: stable_part_def)
qed

lemma map_stable_part_cong:
  assumes "list_all2 (\<lambda>w' w. wc_name w' = wc_name w \<and> mset (wc_panes w') = mset (wc_panes w)) ws' ws"
  shows "map stable_part ws' = map stable_part ws"
  using assms by (induction rule: list_all2_induct) (auto intro: stable_part_cong)

lemma join_str_Cons:
  "join_str sep (x # xs) = (if xs = [] then x else x @ sep @ join_str sep xs)"
  by (cases xs) auto

lemma takeWhile_upto:
  "c \<notin> set x \<Longrightarrow> takeWhile (\<lambda>a. a \<noteq> c) (x @ c # r) = x"
  by (induction x) auto

lemma join_semicolon_inj:
  assumes "length xs = length ys"
    and "\<forall>x \<in> set xs. CHR '';'' \<notin> set x"
    and "\<forall>y \<in> set ys. CHR '';'' \<notin> set y"
    and "join_str '';'' xs = join_str '';'' ys"
  shows "xs = ys"
  using assms
proof (induction xs ys rule: list_induct2)
  case Nil
  then show ?case by simp
next
  case (Cons x xs y ys)
  have nx: "CHR '';'' \<notin> set x" and ny: "CHR '';'' \<notin> set y"
    using Cons.prems by auto
  show ?case
  proof (cases "xs = []")
    case True
    with Cons.hyps have "ys = []" by simp
    with True Cons.prems show ?thesis by simp
  next
    case False
    with Cons.hyps have ysne: "ys \<noteq> []" by auto
    from Cons.prems(3) False ysne
    have eq: "x @ CHR '';'' # join_str '';'' xs = y @ CHR '';'' # join_str '';'' ys"
      by (simp add: join_str_Cons)
    have "takeWhile (\<lambda>c. c \<noteq> CHR '';'') (x @ CHR '';'' # join_str '';'' xs) = x"
      using nx by (rule takeWhile_upto)
    moreover have "takeWhile (\<lambda>c. c \<noteq> CHR '';'') (y @ CHR '';'' # join_str '';'' ys) = y"
      using ny by (rule takeWhile_upto)
    ultimately have xy: "x = y" using eq by simp
    with eq have "join_str '';'' xs = join_str '';'' ys" by simp
    with Cons.IH Cons.prems have "xs = ys" by simp
    with xy show ?thesis by simp
  qed
qed

lemma length_round256: "length hs = 8 \<Longrightarrow> length (round256 hs kw) = 8"
proof -
  assume "length hs = 8"
  then obtain a b c d e f g h where "hs = [a, b, c, d, e, f, g, h]"
    by (auto simp: length_Suc_conv numeral_eq_Suc)
  then show ?thesis by (cases kw) (simp add: Let_def)
qed

lemma length_foldl_round256: "length hs = 8 \<Longrightarrow> length (foldl round256 hs kws) = 8"
  by (induction kws arbitrary: hs) (simp_all add: length_round256)

lemma length_compress: "length hs = 8 \<Longrightarrow> length (compress hs block) = 8"
  by (simp add: compress_def length_foldl_round256)

lemma length_sha256: "length (sha256 m) = 8"
proof -
  have "length (foldl compress hs bs) = 8" if "length hs = 8" for hs bs
    using that by (induction bs arbitrary: hs) (simp_all add: length_compress)
  then show ?thesis by (simp add: sha256_def Let_def H256_def)
qed

lemma length_hex_word: "length (hex_word w) = 8"
  by (simp add: hex_word_def)

lemma length_concat_hex: "length (concat (map hex_word ws)) = 8 * length ws"
  by (induction ws) (simp_all add: length_hex_word)

lemma length_sha256_hexdigest: "length (sha256_hexdigest s) = 64"
  by (simp add: sha256_hexdigest_def length_concat_hex length_sha256)

lemma hex_digit_in: "hex_digit n \<in> set ''0123456789abcdef''"
proof -
  have "n mod 16 < length ''0123456789abcdef''" by simp
  then show ?thesis unfolding hex_digit_def by (rule nth_mem)
qed

lemma hex_sha256_hexdigest: "c \<in> set (sha256_hexdigest s) \<Longrightarrow> c \<in> set ''0123456789abcdef''"
  unfolding sha256_hexdigest_def hex_word_def using hex_digit_in by auto

lemma spec_stable_part_distinct:
  "distinct (map pane_fingerprint (wc_panes w)) \<Longrightarrow> spec_stable_part w = stable_part w"
proof -
  assume d: "distinct (map pane_fingerprint (wc_panes w))"
  have "sorted_list_of_set (set (map pane_fingerprint (wc_panes w)))
          = sort (remdups (map pane_fingerprint (wc_panes w)))"
    by (rule sorted_list_of_set_sort_remdups)
  also have "\<dots> = sort (map pane_fingerprint (wc_panes w))"
    using d by (simp only: distinct_remdups_id)
  finally show ?thesis
    unfolding spec_stable_part_def stable_part_def by (rule arg_cong)
qed

lemma raw_key_windows:
  "raw_key (ctx\<lparr>sc_windows := ws\<rparr>) oc
     = sc_session_path ctx @ '';'' @ join_str '';'' (map stable_part ws) @ '';'' @ oc"
  by (simp add: raw_key_def)

text \<open>
  Claim C3, as amended. The fingerprint is the first 16 hexadecimal characters of the
  SHA-256 digest of the session path, the per-window strings in window order and the
  enrichment text, joined by semicolons. A window's string is its name and the sorted
  \<^emph>\<open>list\<close> of its panes' descriptors \<open>cmdlineOrCommand:fullPath\<close>, duplicates kept. When no
  window has two panes with the same descriptor, this is the fingerprint of the
  specification, which sorts the set of descriptors.
\<close>

theorem build_cache_key_fingerprint:
  "build_cache_key ctx oc =
     take 16 (sha256_hexdigest
       (sc_session_path ctx @ '';''
        @ join_str '';''
            (map (\<lambda>w. wc_name w @ ''|''
                    @ join_str ''|''
                        (sort (map (\<lambda>p. (if pc_cmdline p \<noteq> [] then pc_cmdline p else pc_command p)
                                           @ '':'' @ pc_full_path p)
                                 (wc_panes w))))
               (sc_windows ctx))
        @ '';'' @ oc))
   \<and> length (build_cache_key ctx oc) = 16
   \<and> set (build_cache_key ctx oc) \<subseteq> set ''0123456789abcdef''
   \<and> ((\<forall>w \<in> set (sc_windows ctx). distinct (map pane_fingerprint (wc_panes w)))
        \<longrightarrow> build_cache_key ctx oc = spec_cache_key ctx oc)"
proof (intro conjI impI)
  have sp: "stable_part = (\<lambda>w. wc_name w @ ''|''
                    @ join_str ''|''
                        (sort (map (\<lambda>p. (if pc_cmdline p \<noteq> [] then pc_cmdline p else pc_command p)
                                           @ '':'' @ pc_full_path p)
                                 (wc_panes w))))"
    by (rule ext) (simp add: stable_part_def pane_fingerprint_def[abs_def])
  show "build_cache_key ctx oc =
     take 16 (sha256_hexdigest
       (sc_session_path ctx @ '';''
        @ join_str '';''
            (map (\<lambda>w. wc_name w @ ''|''
                    @ join_str ''|''
                        (sort (map (\<lambda>p. (if pc_cmdline p \<noteq> [] then pc_cmdline p else pc_command p)
                                           @ '':'' @ pc_full_path p)
                                 (wc_panes w))))
               (sc_windows ctx))
        @ '';'' @ oc))"
    unfolding build_cache_key_def raw_key_def sp by (rule refl)
  show "length (build_cache_key ctx oc) = 16"
    by (simp add: build_cache_key_def length_sha256_hexdigest)
  show "set (build_cache_key ctx oc) \<subseteq> set ''0123456789abcdef''"
  proof
    fix c assume "c \<in> set (build_cache_key ctx oc)"
    then have "c \<in> set (sha256_hexdigest (raw_key ctx oc))"
      unfolding build_cache_key_def by (rule in_set_takeD)
    then show "c \<in> set ''0123456789abcdef''" by (rule hex_sha256_hexdigest)
  qed
next
  assume d: "\<forall>w \<in> set (sc_windows ctx). distinct (map pane_fingerprint (wc_panes w))"
  then have eq: "map spec_stable_part (sc_windows ctx) = map stable_part (sc_windows ctx)"
    by (simp add: spec_stable_part_distinct)
  show "build_cache_key ctx oc = spec_cache_key ctx oc"
    unfolding build_cache_key_def spec_cache_key_def raw_key_def eq by (rule refl)
qed

text \<open>
  A window whose two panes have different descriptors: the two fingerprints agree.
\<close>

theorem build_cache_key_fingerprint_witness:
  "build_cache_key (ex_session [ex_paned ''w'' [ex_pane ''vi'' ''/p'', ex_pane [] ''/q'']]) ''notes''
     = spec_cache_key (ex_session [ex_paned ''w'' [ex_pane ''vi'' ''/p'', ex_pane [] ''/q'']]) ''notes''
   \<and> length (build_cache_key (ex_session [ex_paned ''w'' [ex_pane ''vi'' ''/p'', ex_pane [] ''/q'']]) ''notes'') = 16"
proof -
  let ?c = "ex_session [ex_paned ''w'' [ex_pane ''vi'' ''/p'', ex_pane [] ''/q'']]"
  have "\<forall>w \<in> set (sc_windows ?c). distinct (map pane_fingerprint (wc_panes w))"
    by (simp add: ex_session_def ex_paned_def ex_pane_def pane_fingerprint_def)
  with build_cache_key_fingerprint[of ?c "''notes''"] show ?thesis by blast
qed

lemma code_key_duplicate_panes:
  "build_cache_key (ex_session [ex_paned ''w'' [ex_pane ''vi'' ''/p'', ex_pane ''vi'' ''/p'']]) []
     = ''f45c1d28e229abe2''"
  by code_simp

lemma spec_key_duplicate_panes:
  "spec_cache_key (ex_session [ex_paned ''w'' [ex_pane ''vi'' ''/p'', ex_pane ''vi'' ''/p'']]) []
     = ''9566771da4dd4649''"
  by code_simp

text \<open>
  Claim C3 as stated fails: \<open>sorted\<close> is applied to the descriptors themselves, not to
  their set. A window with two panes running \<open>vi\<close> in \<open>/p\<close> gets the fingerprint
  \<open>f45c1d28e229abe2\<close> (of \<open>/p;w|vi:/p|vi:/p;\<close>), where the sorted set gives
  \<open>9566771da4dd4649\<close> (of \<open>/p;w|vi:/p;\<close>).
\<close>

theorem build_cache_key_duplicates_counterexample:
  "build_cache_key (ex_session [ex_paned ''w'' [ex_pane ''vi'' ''/p'', ex_pane ''vi'' ''/p'']]) []
     \<noteq> spec_cache_key (ex_session [ex_paned ''w'' [ex_pane ''vi'' ''/p'', ex_pane ''vi'' ''/p'']]) []"
  unfolding code_key_duplicate_panes spec_key_duplicate_panes by simp

text \<open>
  Claim C4, as amended. The fingerprint is a function of the snapshot and the enrichment
  text. Reordering the panes inside windows leaves it unchanged. Reordering the windows
  leaves it unchanged when the sequence of per-window strings stays the same (two windows
  with the same name and pane descriptors exchanged); when that sequence changes and no
  per-window string contains a semicolon, the string that is hashed changes.
\<close>

theorem build_cache_key_permutations:
  "build_cache_key ctx oc = build_cache_key ctx oc
   \<and> (list_all2 (\<lambda>w' w. wc_name w' = wc_name w \<and> mset (wc_panes w') = mset (wc_panes w)) ws' ws
        \<longrightarrow> build_cache_key (ctx\<lparr>sc_windows := ws'\<rparr>) oc = build_cache_key (ctx\<lparr>sc_windows := ws\<rparr>) oc)
   \<and> (mset ws' = mset ws \<and> map stable_part ws' = map stable_part ws
        \<longrightarrow> build_cache_key (ctx\<lparr>sc_windows := ws'\<rparr>) oc = build_cache_key (ctx\<lparr>sc_windows := ws\<rparr>) oc)
   \<and> (mset ws' = mset ws \<and> map stable_part ws' \<noteq> map stable_part ws
        \<and> (\<forall>w \<in> set ws. CHR '';'' \<notin> set (stable_part w))
        \<longrightarrow> raw_key (ctx\<lparr>sc_windows := ws'\<rparr>) oc \<noteq> raw_key (ctx\<lparr>sc_windows := ws\<rparr>) oc)"
proof (intro conjI impI)
  show "build_cache_key ctx oc = build_cache_key ctx oc" by (rule refl)
next
  assume "list_all2 (\<lambda>w' w. wc_name w' = wc_name w \<and> mset (wc_panes w') = mset (wc_panes w)) ws' ws"
  then have "map stable_part ws' = map stable_part ws" by (rule map_stable_part_cong)
  then show "build_cache_key (ctx\<lparr>sc_windows := ws'\<rparr>) oc = build_cache_key (ctx\<lparr>sc_windows := ws\<rparr>) oc"
    by (simp add: build_cache_key_def raw_key_windows)
next
  assume "mset ws' = mset ws \<and> map stable_part ws' = map stable_part ws"
  then show "build_cache_key (ctx\<lparr>sc_windows := ws'\<rparr>) oc = build_cache_key (ctx\<lparr>sc_windows := ws\<rparr>) oc"
    by (simp add: build_cache_key_def raw_key_windows)
next
  assume a: "mset ws' = mset ws \<and> map stable_part ws' \<noteq> map stable_part ws
        \<and> (\<forall>w \<in> set ws. CHR '';'' \<notin> set (stable_part w))"
  then have len: "length (map stable_part ws') = length (map stable_part ws)"
    by (metis length_map size_mset)
  from a have "set ws' = set ws" by (metis set_mset_mset)
  with a have free: "\<forall>x \<in> set (map stable_part ws'). CHR '';'' \<notin> set x"
    "\<forall>y \<in> set (map stable_part ws). CHR '';'' \<notin> set y"
    by auto
  show "raw_key (ctx\<lparr>sc_windows := ws'\<rparr>) oc \<noteq> raw_key (ctx\<lparr>sc_windows := ws\<rparr>) oc"
  proof
    assume "raw_key (ctx\<lparr>sc_windows := ws'\<rparr>) oc = raw_key (ctx\<lparr>sc_windows := ws\<rparr>) oc"
    then have "join_str '';'' (map stable_part ws') = join_str '';'' (map stable_part ws)"
      by (simp add: raw_key_windows)
    with len free have "map stable_part ws' = map stable_part ws"
      by (rule join_semicolon_inj)
    with a show False by simp
  qed
qed

text \<open>
  Two panes exchanged, two like windows exchanged, and two windows of different names
  exchanged.
\<close>

theorem build_cache_key_permutations_witness:
  "build_cache_key (ex_session [ex_paned ''w'' [ex_pane [] ''/q'', ex_pane ''vi'' ''/p'']]) ''notes''
     = build_cache_key (ex_session [ex_paned ''w'' [ex_pane ''vi'' ''/p'', ex_pane [] ''/q'']]) ''notes''
   \<and> build_cache_key (ex_session [ex_paned ''w'' [] \<lparr>wc_id := ''@2''\<rparr>, ex_paned ''w'' []]) ''notes''
     = build_cache_key (ex_session [ex_paned ''w'' [], ex_paned ''w'' [] \<lparr>wc_id := ''@2''\<rparr>]) ''notes''
   \<and> raw_key (ex_session [ex_paned ''k'' [], ex_paned ''c'' []]) ''notes''
     \<noteq> raw_key (ex_session [ex_paned ''c'' [], ex_paned ''k'' []]) ''notes''"
  using
    build_cache_key_permutations
      [of "ex_session []" "''notes''"
          "[ex_paned ''w'' [ex_pane [] ''/q'', ex_pane ''vi'' ''/p'']]"
          "[ex_paned ''w'' [ex_pane ''vi'' ''/p'', ex_pane [] ''/q'']]"]
    build_cache_key_permutations
      [of "ex_session []" "''notes''"
          "[ex_paned ''w'' [] \<lparr>wc_id := ''@2''\<rparr>, ex_paned ''w'' []]"
          "[ex_paned ''w'' [], ex_paned ''w'' [] \<lparr>wc_id := ''@2''\<rparr>]"]
    build_cache_key_permutations
      [of "ex_session []" "''notes''"
          "[ex_paned ''k'' [], ex_paned ''c'' []]"
          "[ex_paned ''c'' [], ex_paned ''k'' []]"]
  by (simp add: ex_session_def ex_paned_def ex_pane_def stable_part_def)

text \<open>
  Claim C4 as stated fails: exchanging two windows that differ only in their ids is a
  permutation other than the identity, and the fingerprint stays the same.
\<close>

theorem build_cache_key_window_order_counterexample:
  "[ex_paned ''w'' [] \<lparr>wc_id := ''@2''\<rparr>, ex_paned ''w'' []]
     \<noteq> [ex_paned ''w'' [], ex_paned ''w'' [] \<lparr>wc_id := ''@2''\<rparr>]
   \<and> mset [ex_paned ''w'' [] \<lparr>wc_id := ''@2''\<rparr>, ex_paned ''w'' []]
     = mset [ex_paned ''w'' [], ex_paned ''w'' [] \<lparr>wc_id := ''@2''\<rparr>]
   \<and> build_cache_key (ex_session [ex_paned ''w'' [] \<lparr>wc_id := ''@2''\<rparr>, ex_paned ''w'' []]) ''notes''
     = build_cache_key (ex_session [ex_paned ''w'' [], ex_paned ''w'' [] \<lparr>wc_id := ''@2''\<rparr>]) ''notes''"
  by (simp add: build_cache_key_def raw_key_def stable_part_def ex_session_def ex_paned_def)

section \<open>The applier: moves that never meet an occupied index\<close>

lemma collisions_append:
  "collisions L (xs @ ys) = collisions L xs @ collisions (tmux_run L xs) ys"
  by (induction xs arbitrary: L) (simp_all add: tmux_run_def)

lemma tmux_run_append: "tmux_run L (xs @ ys) = tmux_run (tmux_run L xs) ys"
  by (simp add: tmux_run_def)

lemma renames_keep_layout:
  "tmux_run L (map (\<lambda>w. RenameWindow (wp_id w) (wp_name w)) ws) = L"
  by (induction ws) (simp_all add: tmux_run_def)

lemma renames_no_collision:
  "collisions L (map (\<lambda>w. RenameWindow (wp_id w) (wp_name w)) ws) = []"
  by (induction ws) simp_all

lemma occupied_after_move_by_index:
  "occupied (tmux_step L (MoveWindowByIndex sid src dst)) i \<Longrightarrow> occupied L i \<or> i = dst"
  by (auto simp: occupied_def split: if_splits)

lemma to_target_no_collision:
  assumes "distinct (map wp_index ws)" and "\<forall>w \<in> set ws. \<not> occupied L (wp_index w)"
  shows "collisions L (map (\<lambda>(i, w). MoveWindowByIndex sid (900 + int i) (wp_index w))
                          (enumerate k ws)) = []"
  using assms
proof (induction ws arbitrary: k L)
  case Nil
  then show ?case by simp
next
  case (Cons w ws)
  let ?L' = "tmux_step L (MoveWindowByIndex sid (900 + int k) (wp_index w))"
  have free: "\<not> occupied L (wp_index w)" using Cons.prems by simp
  have free': "\<forall>w' \<in> set ws. \<not> occupied ?L' (wp_index w')"
  proof
    fix w' assume w': "w' \<in> set ws"
    then have "wp_index w' \<in> wp_index ` set ws" by (rule imageI)
    moreover have "wp_index w \<notin> wp_index ` set ws" using Cons.prems(1) by simp
    ultimately have "wp_index w' \<noteq> wp_index w" by metis
    moreover have "\<not> occupied L (wp_index w')" using Cons.prems(2) w' by simp
    ultimately show "\<not> occupied ?L' (wp_index w')"
      using occupied_after_move_by_index by blast
  qed
  have dist': "distinct (map wp_index ws)" using Cons.prems(1) by simp
  from dist' free'
  have "collisions ?L' (map (\<lambda>(i, w). MoveWindowByIndex sid (900 + int i) (wp_index w))
                          (enumerate (Suc k) ws)) = []"
    by (rule Cons.IH)
  then show ?case using free by simp
qed

lemma to_temp_no_collision:
  assumes "\<forall>i. 900 + int k \<le> i \<and> i < 900 + int k + int (length ws) \<longrightarrow> \<not> occupied L i"
  shows "collisions L (map (\<lambda>(i, w). MoveWindowById (wp_id w) sid (900 + int i)) (enumerate k ws)) = []
    \<and> (\<forall>(idx, wid) \<in> set (tmux_run L (map (\<lambda>(i, w). MoveWindowById (wp_id w) sid (900 + int i))
                                           (enumerate k ws))).
          (wid \<in> wp_id ` set ws \<and> 900 + int k \<le> idx \<and> idx < 900 + int k + int (length ws))
          \<or> (wid \<notin> wp_id ` set ws \<and> (idx, wid) \<in> set L))"
  using assms
proof (induction ws arbitrary: k L)
  case Nil
  then show ?case by (simp add: tmux_run_def)
next
  case (Cons w ws)
  let ?c = "MoveWindowById (wp_id w) sid (900 + int k)"
  let ?L' = "tmux_step L ?c"
  let ?rest = "map (\<lambda>(i, w). MoveWindowById (wp_id w) sid (900 + int i)) (enumerate (Suc k) ws)"
  have free: "\<not> occupied L (900 + int k)" using Cons.prems by simp
  have L': "?L' = map (\<lambda>(i, x). if x = wp_id w then (900 + int k, x) else (i, x)) L"
    using free by simp
  have occ': "occupied ?L' i \<Longrightarrow> occupied L i \<or> i = 900 + int k" for i
    unfolding L' by (auto simp: occupied_def split: if_splits)
  have "\<forall>i. 900 + int (Suc k) \<le> i \<and> i < 900 + int (Suc k) + int (length ws) \<longrightarrow> \<not> occupied ?L' i"
  proof (intro allI impI)
    fix i assume i: "900 + int (Suc k) \<le> i \<and> i < 900 + int (Suc k) + int (length ws)"
    then have "\<not> occupied L i" using Cons.prems by simp
    moreover have "i \<noteq> 900 + int k" using i by simp
    ultimately show "\<not> occupied ?L' i" using occ' by blast
  qed
  from Cons.IH[OF this]
  have ih1: "collisions ?L' ?rest = []"
    and ih2: "\<forall>(idx, wid) \<in> set (tmux_run ?L' ?rest).
          (wid \<in> wp_id ` set ws \<and> 900 + int (Suc k) \<le> idx \<and> idx < 900 + int (Suc k) + int (length ws))
          \<or> (wid \<notin> wp_id ` set ws \<and> (idx, wid) \<in> set ?L')"
    by blast+
  have run: "tmux_run L (map (\<lambda>(i, w). MoveWindowById (wp_id w) sid (900 + int i)) (enumerate k (w # ws)))
               = tmux_run ?L' ?rest"
    by (simp add: tmux_run_def)
  have col: "collisions L (map (\<lambda>(i, w). MoveWindowById (wp_id w) sid (900 + int i)) (enumerate k (w # ws))) = []"
    using free ih1 by simp
  have "\<forall>(idx, wid) \<in> set (tmux_run ?L' ?rest).
          (wid \<in> wp_id ` set (w # ws) \<and> 900 + int k \<le> idx \<and> idx < 900 + int k + int (length (w # ws)))
          \<or> (wid \<notin> wp_id ` set (w # ws) \<and> (idx, wid) \<in> set L)"
  proof (clarify)
    fix idx wid
    assume mem: "(idx, wid) \<in> set (tmux_run ?L' ?rest)"
      and not2: "\<not> (wid \<notin> wp_id ` set (w # ws) \<and> (idx, wid) \<in> set L)"
    from ih2 mem have
      "(wid \<in> wp_id ` set ws \<and> 900 + int (Suc k) \<le> idx \<and> idx < 900 + int (Suc k) + int (length ws))
       \<or> (wid \<notin> wp_id ` set ws \<and> (idx, wid) \<in> set ?L')" by blast
    then show "wid \<in> wp_id ` set (w # ws) \<and> 900 + int k \<le> idx \<and> idx < 900 + int k + int (length (w # ws))"
    proof
      assume "wid \<in> wp_id ` set ws \<and> 900 + int (Suc k) \<le> idx \<and> idx < 900 + int (Suc k) + int (length ws)"
      then show ?thesis by auto
    next
      assume a: "wid \<notin> wp_id ` set ws \<and> (idx, wid) \<in> set ?L'"
      then have "(idx, wid) \<in> set (map (\<lambda>(i, x). if x = wp_id w then (900 + int k, x) else (i, x)) L)"
        using L' by simp
      then obtain i0 x0 where m: "(i0, x0) \<in> set L"
        and e: "(idx, wid) = (if x0 = wp_id w then (900 + int k, x0) else (i0, x0))"
        by auto
      show ?thesis
      proof (cases "x0 = wp_id w")
        case True
        with e show ?thesis by auto
      next
        case False
        with e m have "(idx, wid) \<in> set L" "wid \<noteq> wp_id w" by auto
        with a not2 show ?thesis by auto
      qed
    qed
  qed
  with col run show ?case by simp
qed

text \<open>
  Claim C1, as amended. The temporary indices are \<open>900 + i\<close> for the \<open>i\<close>-th entry of the
  plan. For a validated plan, applied to a session that holds only windows of the snapshot,
  no move meets an occupied target index, provided that no window of the session sits at an
  index in \<open>900 ..< 900 + N\<close> and no target index of the plan lies there; and the function
  does not raise.
\<close>

theorem apply_organization_plan_no_collision:
  assumes "validate_plan plan ctx = None"
    and "op_windows plan = Some windows"
    and "snd ` set L \<subseteq> wc_id ` set (sc_windows ctx)"
    and "\<forall>i. 900 \<le> i \<and> i < 900 + int (length windows) \<longrightarrow>
               \<not> occupied L i \<and> i \<notin> wp_index ` set windows"
  shows "collisions L (fst (apply_organization_plan session_id plan)) = []
         \<and> \<not> snd (apply_organization_plan session_id plan)"
proof -
  from assms(1,2) obtain name where name: "op_session plan = Some name"
    and ids: "set (map wc_id (sc_windows ctx)) = set (map wp_id windows)"
    and dist: "distinct (map wp_index windows)"
    by (auto simp: validate_plan_def Let_def card_distinct split: option.splits if_splits)
  let ?renames = "map (\<lambda>w. RenameWindow (wp_id w) (wp_name w)) windows"
  let ?to_temp = "map (\<lambda>(i, w). MoveWindowById (wp_id w) session_id (900 + int i)) (enumerate 0 windows)"
  let ?to_target = "map (\<lambda>(i, w). MoveWindowByIndex session_id (900 + int i) (wp_index w))
                      (enumerate 0 windows)"
  have cmds: "apply_organization_plan session_id plan
                = (?renames @ ?to_temp @ ?to_target @ [RenameSession session_id name], False)"
    using assms(2) name by (simp add: apply_organization_plan_def Let_def)
  have free0: "\<forall>i. 900 + int 0 \<le> i \<and> i < 900 + int 0 + int (length windows) \<longrightarrow> \<not> occupied L i"
    using assms(4) by simp
  note p2 = to_temp_no_collision[OF free0, of session_id]
  let ?L2 = "tmux_run L ?to_temp"
  have temp: "\<forall>w \<in> set windows. \<not> occupied ?L2 (wp_index w)"
  proof
    fix w assume w: "w \<in> set windows"
    show "\<not> occupied ?L2 (wp_index w)"
    proof
      assume "occupied ?L2 (wp_index w)"
      then obtain wid where m: "(wp_index w, wid) \<in> set ?L2"
        by (auto simp: occupied_def)
      with p2 have
        "(wid \<in> wp_id ` set windows \<and> 900 + int 0 \<le> wp_index w
            \<and> wp_index w < 900 + int 0 + int (length windows))
         \<or> (wid \<notin> wp_id ` set windows \<and> (wp_index w, wid) \<in> set L)"
        by blast
      then show False
      proof
        assume "wid \<in> wp_id ` set windows \<and> 900 + int 0 \<le> wp_index w
            \<and> wp_index w < 900 + int 0 + int (length windows)"
        then show False using assms(4) w by auto
      next
        assume a: "wid \<notin> wp_id ` set windows \<and> (wp_index w, wid) \<in> set L"
        then have "wid \<in> snd ` set L" by force
        then have "wid \<in> wp_id ` set windows" using assms(3) ids by auto
        with a show False by simp
      qed
    qed
  qed
  have p3: "collisions ?L2 ?to_target = []"
    using dist temp by (rule to_target_no_collision)
  have "collisions L (?renames @ ?to_temp @ ?to_target @ [RenameSession session_id name]) = []"
    using p2 p3
    by (simp add: collisions_append renames_no_collision renames_keep_layout)
  with cmds show ?thesis by simp
qed

text \<open>
  The two windows of the specification's end-to-end example, exchanged.
\<close>

theorem apply_organization_plan_no_collision_witness:
  "collisions [(0, ''@1''), (1, ''@2'')]
     (fst (apply_organization_plan ''$0'' (ex_plan [ex_entry ''@1'' ''code'' 1, ex_entry ''@2'' ''c'' 0]))) = []
   \<and> \<not> snd (apply_organization_plan ''$0'' (ex_plan [ex_entry ''@1'' ''code'' 1, ex_entry ''@2'' ''c'' 0]))"
proof -
  let ?ws = "[ex_entry ''@1'' ''code'' 1, ex_entry ''@2'' ''c'' 0]"
  let ?c = "ex_context [ex_window ''@1'' 0, ex_window ''@2'' 1]"
  let ?L = "[(0, ''@1''), (1, ''@2'')] :: layout"
  have v: "validate_plan (ex_plan ?ws) ?c = None"
    by (simp add: validate_plan_def ex_plan_def ex_entry_def ex_context_def ex_window_def)
  have w: "op_windows (ex_plan ?ws) = Some ?ws" by (simp add: ex_plan_def)
  have l: "snd ` set ?L \<subseteq> wc_id ` set (sc_windows ?c)"
    by (simp add: ex_context_def ex_window_def)
  have t: "\<forall>i. 900 \<le> i \<and> i < 900 + int (length ?ws) \<longrightarrow>
               \<not> occupied ?L i \<and> i \<notin> wp_index ` set ?ws"
    by (auto simp: occupied_def ex_entry_def)
  from apply_organization_plan_no_collision[OF v w l t] show ?thesis .
qed

text \<open>
  Claim C1 as stated fails: validation puts no bound on the target indices, so they can lie
  in the temporary range. The validated plan that sends \<open>@1\<close> to 901 and \<open>@2\<close> to 900 first
  parks \<open>@1\<close> at 900 and \<open>@2\<close> at 901; the move from 900 to 901 then meets \<open>@2\<close>, which has
  not left 901, and the move from 901 to 900 meets \<open>@1\<close>.
\<close>

theorem apply_organization_plan_collision_counterexample:
  "validate_plan (ex_plan [ex_entry ''@1'' ''code'' 901, ex_entry ''@2'' ''c'' 900])
       (ex_context [ex_window ''@1'' 0, ex_window ''@2'' 1]) = None
   \<and> distinct (map wp_index [ex_entry ''@1'' ''code'' 901, ex_entry ''@2'' ''c'' 900])
   \<and> distinct (map wp_id [ex_entry ''@1'' ''code'' 901, ex_entry ''@2'' ''c'' 900])
   \<and> collisions [(0, ''@1''), (1, ''@2'')]
        (fst (apply_organization_plan ''$0''
               (ex_plan [ex_entry ''@1'' ''code'' 901, ex_entry ''@2'' ''c'' 900])))
       = [MoveWindowByIndex ''$0'' 900 901, MoveWindowByIndex ''$0'' 901 900]"
  by (simp add: validate_plan_def apply_organization_plan_def occupied_def
        ex_plan_def ex_entry_def ex_context_def ex_window_def enumerate_eq_zip upt_rec)

section \<open>Extraction: the first candidate and nothing after it\<close>

lemma net_depth_Nil: "net_depth [] = 0"
  by (simp add: net_depth_def)

lemma net_depth_Cons:
  "net_depth (c # cs) =
     (if c = CHR ''{'' then 1 else if c = CHR ''}'' then - 1 else 0) + net_depth cs"
  by (simp add: net_depth_def)

lemma scan_braces_Some:
  assumes "0 < n" and "n \<le> length cs" and "0 < d"
    and "d + net_depth (take n cs) = 0"
    and "\<forall>k. 0 < k \<and> k < n \<longrightarrow> 0 < d + net_depth (take k cs)"
  shows "scan_braces d i cs = Some (i + n - 1)"
  using assms
proof (induction cs arbitrary: d i n)
  case Nil
  then show ?case by simp
next
  case (Cons c cs)
  let ?d' = "d + (if c = CHR ''{'' then 1 else if c = CHR ''}'' then - 1 else 0)"
  show ?case
  proof (cases "n = 1")
    case True
    with Cons.prems have "?d' = 0" by (simp add: net_depth_Cons net_depth_Nil)
    with Cons.prems(3) have "c = CHR ''}''" "d = 1" by (auto split: if_splits)
    with True show ?thesis by simp
  next
    case False
    with Cons.prems(1) obtain m where n: "n = Suc m" and m: "0 < m"
      by (cases n) auto
    have "0 < (1::nat) \<and> 1 < n" using n m by simp
    with Cons.prems(5) have "0 < d + net_depth (take 1 (c # cs))" by blast
    then have pos: "0 < ?d'" by (simp add: net_depth_Cons net_depth_Nil)
    have step: "scan_braces d i (c # cs) = scan_braces ?d' (i + 1) cs"
      using pos by (auto simp: Let_def)
    have "?d' + net_depth (take m cs) = 0"
      using Cons.prems(4) n by (simp add: net_depth_Cons)
    moreover have "\<forall>k. 0 < k \<and> k < m \<longrightarrow> 0 < ?d' + net_depth (take k cs)"
    proof (intro allI impI)
      fix k assume "0 < k \<and> k < m"
      then have "0 < Suc k \<and> Suc k < n" using n by simp
      with Cons.prems(5) have "0 < d + net_depth (take (Suc k) (c # cs))" by blast
      then show "0 < ?d' + net_depth (take k cs)" by (simp add: net_depth_Cons)
    qed
    moreover have "m \<le> length cs" using Cons.prems(2) n by simp
    ultimately have "scan_braces ?d' (i + 1) cs = Some (i + 1 + m - 1)"
      using m pos Cons.IH[of m ?d' "i + 1"] by blast
    with step n show ?thesis by simp
  qed
qed

lemma scan_braces_None:
  assumes "\<forall>k. 0 < k \<and> k \<le> length cs \<longrightarrow> 0 < d + net_depth (take k cs)"
  shows "scan_braces d i cs = None"
  using assms
proof (induction cs arbitrary: d i)
  case Nil
  then show ?case by simp
next
  case (Cons c cs)
  let ?d' = "d + (if c = CHR ''{'' then 1 else if c = CHR ''}'' then - 1 else 0)"
  have "0 < (1::nat) \<and> 1 \<le> length (c # cs)" by simp
  with Cons.prems have "0 < d + net_depth (take 1 (c # cs))" by blast
  then have pos: "0 < ?d'" by (simp add: net_depth_Cons net_depth_Nil)
  have step: "scan_braces d i (c # cs) = scan_braces ?d' (i + 1) cs"
    using pos by (auto simp: Let_def)
  have "\<forall>k. 0 < k \<and> k \<le> length cs \<longrightarrow> 0 < ?d' + net_depth (take k cs)"
  proof (intro allI impI)
    fix k assume "0 < k \<and> k \<le> length cs"
    then have "0 < Suc k \<and> Suc k \<le> length (c # cs)" by simp
    with Cons.prems have "0 < d + net_depth (take (Suc k) (c # cs))" by blast
    then show "0 < ?d' + net_depth (take k cs)" by (simp add: net_depth_Cons)
  qed
  then have "scan_braces ?d' (i + 1) cs = None" by (rule Cons.IH)
  with step show ?case by simp
qed

lemma find_char_first:
  "c \<notin> set pre \<Longrightarrow> find_char c (pre @ c # rest) = Some (length pre)"
  by (induction pre) (auto simp: find_char_def)

lemma find_char_none: "c \<notin> set text \<Longrightarrow> find_char c text = None"
  by (simp add: find_char_def)

lemma extract_no_brace:
  "CHR ''{'' \<notin> set text \<Longrightarrow> extract_json_from_output loads text = None"
  by (simp add: extract_json_from_output_def find_char_none)

lemma extract_first_balanced:
  assumes "CHR ''{'' \<notin> set pre" and "cand \<noteq> []" and "hd cand = CHR ''{''"
    and "net_depth cand = 0"
    and "\<forall>k. 0 < k \<and> k < length cand \<longrightarrow> 0 < net_depth (take k cand)"
  shows "extract_json_from_output loads (pre @ cand @ post) = loads cand"
proof -
  from assms(2,3) obtain cand' where cand: "cand = CHR ''{'' # cand'"
    by (cases cand) auto
  have ne: "cand' \<noteq> []" using assms(4) cand by (auto simp: net_depth_Cons net_depth_Nil)
  have f: "find_char CHR ''{'' (pre @ cand @ post) = Some (length pre)"
    using assms(1) cand by (simp add: find_char_first)
  have d: "drop (length pre) (pre @ cand @ post) = CHR ''{'' # cand' @ post"
    using cand by simp
  have first: "scan_braces 0 (length pre) (CHR ''{'' # cand' @ post)
                 = scan_braces 1 (length pre + 1) (cand' @ post)"
    by simp
  have z: "1 + net_depth (take (length cand') (cand' @ post)) = 0"
    using assms(4) cand by (simp add: net_depth_Cons)
  have p: "\<forall>k. 0 < k \<and> k < length cand' \<longrightarrow> 0 < 1 + net_depth (take k (cand' @ post))"
  proof (intro allI impI)
    fix k assume k: "0 < k \<and> k < length cand'"
    then have "0 < Suc k \<and> Suc k < length cand" using cand by simp
    with assms(5) have "0 < net_depth (take (Suc k) cand)" by blast
    with k show "0 < 1 + net_depth (take k (cand' @ post))"
      using cand by (simp add: net_depth_Cons)
  qed
  have "scan_braces 1 (length pre + 1) (cand' @ post)
          = Some (length pre + 1 + length cand' - 1)"
    using ne z p by (intro scan_braces_Some) auto
  with first have s: "scan_braces 0 (length pre) (CHR ''{'' # cand' @ post)
                        = Some (length pre + length cand')"
    by simp
  have "take (length pre + length cand' + 1 - length pre) (CHR ''{'' # cand' @ post) = cand"
    using cand by simp
  with f d s show ?thesis
    by (simp add: extract_json_from_output_def)
qed

lemma extract_never_balanced:
  assumes "CHR ''{'' \<notin> set pre"
    and "\<forall>k. 0 < k \<and> k \<le> length rest \<longrightarrow> 0 < net_depth (take k rest)"
  shows "extract_json_from_output loads (pre @ rest) = None"
proof (cases rest)
  case Nil
  with assms(1) show ?thesis by (simp add: extract_no_brace)
next
  case (Cons c rest')
  have "0 < (1::nat) \<and> 1 \<le> length rest" using Cons by simp
  with assms(2) have "0 < net_depth (take 1 rest)" by blast
  then have c: "c = CHR ''{''" using Cons by (auto simp: net_depth_Cons net_depth_Nil split: if_splits)
  have f: "find_char CHR ''{'' (pre @ rest) = Some (length pre)"
    using assms(1) Cons c by (simp add: find_char_first)
  have "\<forall>k. 0 < k \<and> k \<le> length rest \<longrightarrow> 0 < 0 + net_depth (take k rest)"
    using assms(2) by simp
  then have "scan_braces 0 (length pre) rest = None" by (rule scan_braces_None)
  with f show ?thesis by (simp add: extract_json_from_output_def)
qed

lemma extract_example:
  \<open>extract_json_from_output json_loads ''here's the plan: {"session":"x","windows":[]} thanks!''
     = Some (JObj [(''session'', JStr ''x''), (''windows'', JArr [])])\<close>
  by code_simp

text \<open>
  Claim C5, as amended. Whatever the parser, extraction looks at one candidate only: the
  text from the first opening brace up to the first closing brace at which the count of
  braces comes back to zero, prose before and after it ignored. The result is what the
  parser makes of that candidate; when the text has no opening brace, or the braces never
  balance, or the candidate does not parse, there is no result, and \<open>ask_model_for_plan\<close>
  reports \<open>no json in model output\<close> instead of a plan. The example of the specification
  yields the object \<open>{"session":"x","windows":[]}\<close>.
\<close>

theorem extract_json_first_candidate:
  \<open>(CHR ''{'' \<notin> set text \<longrightarrow> extract_json_from_output loads text = None)
   \<and> (\<forall>pre cand post.
        text = pre @ cand @ post \<and> CHR ''{'' \<notin> set pre \<and> cand \<noteq> [] \<and> hd cand = CHR ''{''
        \<and> net_depth cand = 0 \<and> (\<forall>k. 0 < k \<and> k < length cand \<longrightarrow> 0 < net_depth (take k cand))
        \<longrightarrow> extract_json_from_output loads text = loads cand)
   \<and> (\<forall>pre rest.
        text = pre @ rest \<and> CHR ''{'' \<notin> set pre
        \<and> (\<forall>k. 0 < k \<and> k \<le> length rest \<longrightarrow> 0 < net_depth (take k rest))
        \<longrightarrow> extract_json_from_output loads text = None)
   \<and> extract_json_from_output json_loads ''here's the plan: {"session":"x","windows":[]} thanks!''
       = Some (JObj [(''session'', JStr ''x''), (''windows'', JArr [])])
   \<and> (extract_json_from_output loads text = None
        \<longrightarrow> ask_model_for_plan loads (Completed rc text) = Returns (None, Some ''no json in model output''))
   \<and> (\<forall>plan. extract_json_from_output loads text = Some plan
        \<longrightarrow> ask_model_for_plan loads (Completed rc text) = Returns (Some plan, None))\<close>
proof (intro conjI allI impI)
  assume "CHR ''{'' \<notin> set text"
  then show "extract_json_from_output loads text = None" by (rule extract_no_brace)
next
  fix pre cand post
  assume a: "text = pre @ cand @ post \<and> CHR ''{'' \<notin> set pre \<and> cand \<noteq> [] \<and> hd cand = CHR ''{''
        \<and> net_depth cand = 0 \<and> (\<forall>k. 0 < k \<and> k < length cand \<longrightarrow> 0 < net_depth (take k cand))"
  from a have t: "text = pre @ cand @ post" by (rule conjunct1)
  from a have p: "CHR ''{'' \<notin> set pre" by (elim conjE)
  from a have c1: "cand \<noteq> []" by (elim conjE)
  from a have c2: "hd cand = CHR ''{''" by (elim conjE)
  from a have c3: "net_depth cand = 0" by (elim conjE)
  from a have c4: "\<forall>k. 0 < k \<and> k < length cand \<longrightarrow> 0 < net_depth (take k cand)" by (elim conjE)
  from p c1 c2 c3 c4 show "extract_json_from_output loads text = loads cand"
    unfolding t by (rule extract_first_balanced)
next
  fix pre rest
  assume a: "text = pre @ rest \<and> CHR ''{'' \<notin> set pre
        \<and> (\<forall>k. 0 < k \<and> k \<le> length rest \<longrightarrow> 0 < net_depth (take k rest))"
  from a have t: "text = pre @ rest" by (rule conjunct1)
  from a have p: "CHR ''{'' \<notin> set pre" by (elim conjE)
  from a have r: "\<forall>k. 0 < k \<and> k \<le> length rest \<longrightarrow> 0 < net_depth (take k rest)" by (elim conjE)
  from p r show "extract_json_from_output loads text = None"
    unfolding t by (rule extract_never_balanced)
next
  show \<open>extract_json_from_output json_loads ''here's the plan: {"session":"x","windows":[]} thanks!''
       = Some (JObj [(''session'', JStr ''x''), (''windows'', JArr [])])\<close>
    by (rule extract_example)
next
  assume "extract_json_from_output loads text = None"
  then show "ask_model_for_plan loads (Completed rc text) = Returns (None, Some ''no json in model output'')"
    by (simp add: ask_model_for_plan_def)
next
  fix plan
  assume "extract_json_from_output loads text = Some plan"
  then show "ask_model_for_plan loads (Completed rc text) = Returns (Some plan, None)"
    by (simp add: ask_model_for_plan_def)
qed

lemma garbage_unparsed: \<open>json_loads ''{nope}'' = None\<close>
  by code_simp

lemma depth_prefixes: \<open>\<forall>k. 0 < k \<and> k < length ''{nope}'' \<longrightarrow> 0 < net_depth (take k ''{nope}'')\<close>
proof (intro allI impI)
  fix k :: nat assume "0 < k \<and> k < length ''{nope}''"
  then have "k \<in> {1, 2, 3, 4, 5}" by auto
  then show \<open>0 < net_depth (take k ''{nope}'')\<close>
    by (auto simp: net_depth_def)
qed

text \<open>
  No brace at all; a first candidate that does not parse, followed by a well-formed object;
  braces that never balance.
\<close>

theorem extract_json_first_candidate_witness:
  \<open>extract_json_from_output json_loads ''no plan today'' = None
   \<and> extract_json_from_output json_loads ''see {nope} {"session":"x","windows":[]}'' = None
   \<and> extract_json_from_output json_loads ''see {{nope}'' = None
   \<and> ask_model_for_plan json_loads (Completed 0 ''no plan today'')
       = Returns (None, Some ''no json in model output'')\<close>
proof -
  note t1 = extract_json_first_candidate[of \<open>''no plan today''\<close> json_loads 0]
  have 1: \<open>extract_json_from_output json_loads ''no plan today'' = None\<close>
    using t1[THEN conjunct1] by simp
  have 4: \<open>ask_model_for_plan json_loads (Completed 0 ''no plan today'')
       = Returns (None, Some ''no json in model output'')\<close>
    using 1 t1[THEN conjunct2, THEN conjunct2, THEN conjunct2, THEN conjunct2, THEN conjunct1]
    by (rule rev_mp)
  note t2 = extract_json_first_candidate
              [of \<open>''see {nope} {"session":"x","windows":[]}''\<close> json_loads 0,
               THEN conjunct2, THEN conjunct1, rule_format,
               of \<open>''see ''\<close> \<open>''{nope}''\<close> \<open>'' {"session":"x","windows":[]}''\<close>]
  have p2: \<open>''see {nope} {"session":"x","windows":[]}'' = ''see '' @ ''{nope}'' @ '' {"session":"x","windows":[]}''
             \<and> CHR ''{'' \<notin> set ''see '' \<and> ''{nope}'' \<noteq> [] \<and> hd ''{nope}'' = CHR ''{''
             \<and> net_depth ''{nope}'' = 0
             \<and> (\<forall>k. 0 < k \<and> k < length ''{nope}'' \<longrightarrow> 0 < net_depth (take k ''{nope}''))\<close>
  proof (intro conjI)
    show \<open>\<forall>k. 0 < k \<and> k < length ''{nope}'' \<longrightarrow> 0 < net_depth (take k ''{nope}'')\<close>
      by (rule depth_prefixes)
  qed (simp_all add: net_depth_def)
  have 2: \<open>extract_json_from_output json_loads ''see {nope} {"session":"x","windows":[]}'' = None\<close>
    using t2[OF p2] by (simp only: garbage_unparsed)
  note t3 = extract_json_first_candidate
              [of \<open>''see {{nope}''\<close> json_loads 0,
               THEN conjunct2, THEN conjunct2, THEN conjunct1, rule_format,
               of \<open>''see ''\<close> \<open>''{{nope}''\<close>]
  have d3: \<open>\<forall>k. 0 < k \<and> k \<le> length ''{{nope}'' \<longrightarrow> 0 < net_depth (take k ''{{nope}'')\<close>
  proof (intro allI impI)
    fix k :: nat assume "0 < k \<and> k \<le> length ''{{nope}''"
    then have "k \<in> {1, 2, 3, 4, 5, 6, 7}" by auto
    then show \<open>0 < net_depth (take k ''{{nope}'')\<close>
      by (auto simp: net_depth_def)
  qed
  have p3: \<open>''see {{nope}'' = ''see '' @ ''{{nope}'' \<and> CHR ''{'' \<notin> set ''see ''
             \<and> (\<forall>k. 0 < k \<and> k \<le> length ''{{nope}'' \<longrightarrow> 0 < net_depth (take k ''{{nope}''))\<close>
  proof (intro conjI)
    show \<open>\<forall>k. 0 < k \<and> k \<le> length ''{{nope}'' \<longrightarrow> 0 < net_depth (take k ''{{nope}'')\<close>
      by (rule d3)
  qed simp_all
  have 3: \<open>extract_json_from_output json_loads ''see {{nope}'' = None\<close>
    by (rule t3[OF p3])
  from 1 2 3 4 show ?thesis by (intro conjI)
qed

text \<open>
  Claim C5 as stated fails: the first brace-delimited substring that balances \<^emph>\<open>and\<close>
  parses is the plan after \<open>{nope}\<close>, but the function stops at \<open>{nope}\<close>.
\<close>

theorem extract_json_gives_up_counterexample:
  \<open>spec_extract json_loads ''see {nope} {"session":"x","windows":[]}''
     = Some (JObj [(''session'', JStr ''x''), (''windows'', JArr [])])
   \<and> extract_json_from_output json_loads ''see {nope} {"session":"x","windows":[]}'' = None\<close>
  by code_simp

text \<open>
  Claim C10. The text \<open>{"a":"}"}\<close> is one well-formed object whose string value is a
  closing brace. Braces are counted inside string literals too, so the depth is back at
  zero at index 6; the candidate \<open>{"a":"}\<close> does not parse, and extraction returns nothing.
\<close>

theorem extract_json_brace_in_string:
  \<open>\<exists>text val i.
     json_loads text = Some (JObj [(''a'', JStr val)])
     \<and> CHR ''}'' \<in> set val
     \<and> scan_braces 0 0 text = Some i
     \<and> i + 1 < length text
     \<and> json_loads (take (i + 1) text) = None
     \<and> extract_json_from_output json_loads text = None\<close>
proof (intro exI conjI)
  show \<open>json_loads ''{"a":"}"}'' = Some (JObj [(''a'', JStr ''}'')])\<close> by code_simp
  show \<open>CHR ''}'' \<in> set ''}''\<close> by simp
  show \<open>scan_braces 0 0 ''{"a":"}"}'' = Some 6\<close> by code_simp
  show \<open>6 + 1 < length ''{"a":"}"}''\<close> by simp
  show \<open>json_loads (take (6 + 1) ''{"a":"}"}'') = None\<close> by code_simp
  show \<open>extract_json_from_output json_loads ''{"a":"}"}'' = None\<close> by code_simp
qed

section \<open>The run: an invalid plan is neither cached nor applied\<close>

lemma validate_plan_truthy: "truthy (validate_plan plan ctx) = (validate_plan plan ctx \<noteq> None)"
  by (auto simp: truthy_def validate_plan_def Let_def split: option.splits)

lemma validate_and_apply_invalid:
  "validate_plan plan (e_context e) \<noteq> None \<Longrightarrow>
   validate_and_apply e k c plan
     = [Tmux (SetOption (e_session_id e) ''@torganize'' (the (validate_plan plan (e_context e)))), Exit 1]"
  by (simp add: validate_and_apply_def Let_def validate_plan_truthy)

lemma validate_and_apply_write:
  "WriteCache k' p \<in> set (validate_and_apply e k c plan) \<Longrightarrow>
   k' = k \<and> p = plan \<and> \<not> c \<and> validate_plan plan (e_context e) = None"
  by (auto simp: validate_and_apply_def Let_def validate_plan_truthy split: if_splits prod.splits)

lemma validate_and_apply_change:
  assumes "Tmux cmd \<in> set (validate_and_apply e k c plan)" and "changes_session cmd"
  shows "validate_plan plan (e_context e) = None
   \<and> cmd \<in> set (fst (apply_organization_plan (e_session_id e) plan))"
proof -
  obtain cmds raised where ap: "apply_organization_plan (e_session_id e) plan = (cmds, raised)"
    by (cases "apply_organization_plan (e_session_id e) plan")
  show ?thesis
    using assms ap
    by (auto simp: validate_and_apply_def Let_def validate_plan_truthy split: if_splits)
qed

lemma main_child_write:
  assumes "WriteCache k p \<in> set (main_child e oc)"
  shows "validate_plan p (e_context e) = None \<and> k = build_cache_key (e_context e) oc
         \<and> e_cache e k = None"
  using assms
  by (auto simp: main_child_def Let_def split: option.splits if_splits result.splits prod.splits
           dest!: validate_and_apply_write)

lemma main_child_change:
  assumes "Tmux cmd \<in> set (main_child e oc)" and "changes_session cmd"
  shows "\<exists>p. validate_plan p (e_context e) = None
             \<and> cmd \<in> set (fst (apply_organization_plan (e_session_id e) p))
             \<and> (e_cache e (build_cache_key (e_context e) oc) = Some p
                \<or> (\<exists>rc out. e_opencode e = Completed rc out
                       \<and> extract_json_from_output (e_loads_plan e) out = Some p))"
  using assms
  by (auto simp: main_child_def Let_def ask_model_for_plan_def truthy_def
           split: option.splits if_splits result.splits prod.splits proc_result.splits
           dest!: validate_and_apply_change)

lemma main_effects:
  "x \<in> set (main e) \<Longrightarrow>
   x = Print ''not in a tmux session'' \<or> x = Exit 1 \<or> (\<exists>m. x = Uncaught m)
   \<or> x = Tmux (SetOption (e_session_id e) ''@torganize'' ''organizing...'') \<or> x = Fork
   \<or> x \<in> set (main_child e (enrichment_of e))"
  by (auto simp: main_def enrichment_of_def Let_def split: if_splits result.splits)

text \<open>
  Claim C6. In every run, a cache write carries a plan that passed validation, under the
  run's own cache key, and happens only when the cache held nothing under that key. Every
  command that renames or moves belongs to the application of a plan that passed
  validation, and that plan is the cached one or the one extracted from the service's
  output. A plan that fails validation, cached or new, leads to the diagnostic on the status
  surface and exit status 1, and to nothing else.
\<close>

theorem main_invalid_plan_never_used:
  "(\<forall>k p. WriteCache k p \<in> set (main e) \<longrightarrow>
       validate_plan p (e_context e) = None
       \<and> k = build_cache_key (e_context e) (enrichment_of e)
       \<and> e_cache e k = None)
   \<and> (\<forall>cmd. Tmux cmd \<in> set (main e) \<and> changes_session cmd \<longrightarrow>
        (\<exists>p. validate_plan p (e_context e) = None
            \<and> cmd \<in> set (fst (apply_organization_plan (e_session_id e) p))
            \<and> (e_cache e (build_cache_key (e_context e) (enrichment_of e)) = Some p
               \<or> (\<exists>rc out. e_opencode e = Completed rc out
                      \<and> extract_json_from_output (e_loads_plan e) out = Some p))))
   \<and> (\<forall>k c p. validate_plan p (e_context e) \<noteq> None \<longrightarrow>
        validate_and_apply e k c p
          = [Tmux (SetOption (e_session_id e) ''@torganize'' (the (validate_plan p (e_context e)))),
             Exit 1])"
proof -
  have w: "\<forall>k p. WriteCache k p \<in> set (main e) \<longrightarrow>
       validate_plan p (e_context e) = None
       \<and> k = build_cache_key (e_context e) (enrichment_of e)
       \<and> e_cache e k = None"
  proof (intro allI impI)
    fix k p assume "WriteCache k p \<in> set (main e)"
    then have "WriteCache k p \<in> set (main_child e (enrichment_of e))"
      using main_effects[of "WriteCache k p" e] by auto
    then show "validate_plan p (e_context e) = None
         \<and> k = build_cache_key (e_context e) (enrichment_of e)
         \<and> e_cache e k = None"
      by (rule main_child_write)
  qed
  have a: "\<forall>cmd. Tmux cmd \<in> set (main e) \<and> changes_session cmd \<longrightarrow>
        (\<exists>p. validate_plan p (e_context e) = None
            \<and> cmd \<in> set (fst (apply_organization_plan (e_session_id e) p))
            \<and> (e_cache e (build_cache_key (e_context e) (enrichment_of e)) = Some p
               \<or> (\<exists>rc out. e_opencode e = Completed rc out
                      \<and> extract_json_from_output (e_loads_plan e) out = Some p)))"
  proof (intro allI impI)
    fix cmd assume a: "Tmux cmd \<in> set (main e) \<and> changes_session cmd"
    then have "Tmux cmd \<in> set (main_child e (enrichment_of e))"
      using main_effects[of "Tmux cmd" e] by auto
    with a show "\<exists>p. validate_plan p (e_context e) = None
            \<and> cmd \<in> set (fst (apply_organization_plan (e_session_id e) p))
            \<and> (e_cache e (build_cache_key (e_context e) (enrichment_of e)) = Some p
               \<or> (\<exists>rc out. e_opencode e = Completed rc out
                      \<and> extract_json_from_output (e_loads_plan e) out = Some p))"
      using main_child_change[of cmd e "enrichment_of e"] by blast
  qed
  have v: "\<forall>k c p. validate_plan p (e_context e) \<noteq> None \<longrightarrow>
        validate_and_apply e k c p
          = [Tmux (SetOption (e_session_id e) ''@torganize'' (the (validate_plan p (e_context e)))),
             Exit 1]"
    using validate_and_apply_invalid by blast
  from w a v show ?thesis by (intro conjI)
qed

text \<open>
  A new plan that is valid is written to the cache; a new plan and a cached plan that miss
  the window \<open>@2\<close> are reported and neither written nor applied.
\<close>

theorem main_invalid_plan_never_used_witness:
  "WriteCache (build_cache_key (e_context (ex_env (ex_plan [ex_entry ''@1'' ''code'' 1, ex_entry ''@2'' ''c'' 0]))) [])
       (ex_plan [ex_entry ''@1'' ''code'' 1, ex_entry ''@2'' ''c'' 0])
     \<in> set (main (ex_env (ex_plan [ex_entry ''@1'' ''code'' 1, ex_entry ''@2'' ''c'' 0])))
   \<and> validate_plan (ex_plan [ex_entry ''@1'' ''code'' 1, ex_entry ''@2'' ''c'' 0])
        (e_context (ex_env (ex_plan [ex_entry ''@1'' ''code'' 1, ex_entry ''@2'' ''c'' 0]))) = None
   \<and> main (ex_env (ex_plan [ex_entry ''@1'' ''code'' 1]))
       = [Tmux (SetOption ''$0'' ''@torganize'' ''organizing...''), Fork, AskModel,
          Tmux (SetOption ''$0'' ''@torganize'' ''window id mismatch: missing @2''), Exit 1]
   \<and> main (ex_env (ex_plan []) \<lparr>e_cache := \<lambda>key. Some (ex_plan [ex_entry ''@1'' ''code'' 1])\<rparr>)
       = [Tmux (SetOption ''$0'' ''@torganize'' ''organizing...''), Fork,
          Tmux (SetOption ''$0'' ''@torganize'' ''window id mismatch: missing @2''), Exit 1]"
proof -
  let ?p = "ex_plan [ex_entry ''@1'' ''code'' 1, ex_entry ''@2'' ''c'' 0]"
  let ?q = "ex_plan [ex_entry ''@1'' ''code'' 1]"
  have ex: "extract_json_from_output (\<lambda>out. Some x) ''{}'' = Some x" for x :: organize_plan
    by (simp add: extract_json_from_output_def find_char_def)
  have enr: "enrichment_of (ex_env x) = []" for x
    by (simp add: enrichment_of_def ex_env_def query_opencode_sessions_def build_opencode_context_def)
  have vp: "validate_plan ?p (ex_context [ex_window ''@1'' 0, ex_window ''@2'' 1]) = None"
    by (simp add: validate_plan_def ex_plan_def ex_entry_def ex_context_def ex_window_def)
  have vq: "validate_plan ?q (ex_context [ex_window ''@1'' 0, ex_window ''@2'' 1])
              = Some ''window id mismatch: missing @2''"
    by (simp add: validate_plan_def ex_plan_def ex_entry_def ex_context_def ex_window_def insert_Diff_if)
  have nf: "\<not> plan_falsy ?q" by (simp add: plan_falsy_def ex_plan_def)
  have m1: "WriteCache (build_cache_key (e_context (ex_env ?p)) []) ?p \<in> set (main (ex_env ?p))"
    using vp
    by (simp add: main_def main_child_def validate_and_apply_def ask_model_for_plan_def ex
          query_opencode_sessions_def build_opencode_context_def truthy_def ex_env_def Let_def)
  from main_invalid_plan_never_used[of "ex_env ?p", THEN conjunct1, rule_format, OF m1]
  have 2: "validate_plan ?p (e_context (ex_env ?p)) = None" by (rule conjunct1)
  have vq': "validate_plan ?q (e_context (ex_env x)) \<noteq> None" for x
    using vq by (simp add: ex_env_def)
  note inv = main_invalid_plan_never_used[of "ex_env ?q", THEN conjunct2, THEN conjunct2, rule_format, OF vq']
  have 3: "main (ex_env ?q)
       = [Tmux (SetOption ''$0'' ''@torganize'' ''organizing...''), Fork, AskModel,
          Tmux (SetOption ''$0'' ''@torganize'' ''window id mismatch: missing @2''), Exit 1]"
    using vq inv
    by (simp add: main_def main_child_def ask_model_for_plan_def ex
          query_opencode_sessions_def build_opencode_context_def truthy_def ex_env_def Let_def)
  have 4: "main (ex_env (ex_plan []) \<lparr>e_cache := \<lambda>key. Some ?q\<rparr>)
       = [Tmux (SetOption ''$0'' ''@torganize'' ''organizing...''), Fork,
          Tmux (SetOption ''$0'' ''@torganize'' ''window id mismatch: missing @2''), Exit 1]"
    using vq nf
    by (simp add: main_def main_child_def validate_and_apply_def
          query_opencode_sessions_def build_opencode_context_def truthy_def ex_env_def Let_def)
  from m1 2 3 4 show ?thesis by (intro conjI)
qed

section \<open>Enrichment: failures of the source, and what counts as a match\<close>

lemma foldl_match_record_unchanged:
  assumes "\<forall>oc \<in> set ocs. match_record name ws oc = ws"
  shows "foldl (match_record name) ws ocs = ws"
  using assms by (induction ocs) simp_all



text \<open>
  What does hold of the enrichment: it is empty when every record lacks a pane target of
  this session with a window index that parses, or lacks session data. Whether the index
  is that of a window of the snapshot is never looked at.
\<close>

lemma build_opencode_context_no_candidate:
  assumes "\<forall>oc \<in> set ocs.
             (case oc_tmux_pane oc of
                None \<Rightarrow> True
              | Some t \<Rightarrow>
                  CHR '':'' \<notin> set t
                  \<or> fst (split_once CHR '':'' t) \<noteq> session_name_of (sc_session_id ctx)
                  \<or> py_int (takeWhile (\<lambda>x. x \<noteq> CHR ''.'') (snd (split_once CHR '':'' t))) = None
                  \<or> oc_session oc = None)"
  shows "build_opencode_context session_name_of ocs ctx = []"
proof -
  have "match_record (session_name_of (sc_session_id ctx)) [] oc = []" if "oc \<in> set ocs" for oc
  proof -
    have tw: "(if CHR ''.'' \<in> set r then takeWhile (\<lambda>x. x \<noteq> CHR ''.'') r else r)
                = takeWhile (\<lambda>x. x \<noteq> CHR ''.'') r" for r :: string
      by (induction r) auto
    from assms that show ?thesis
      by (auto simp: match_record_def Let_def tw split: option.splits prod.splits)
  qed
  then have "foldl (match_record (session_name_of (sc_session_id ctx))) [] ocs = []"
    by (intro foldl_match_record_unchanged) simp
  then show ?thesis by (simp add: build_opencode_context_def Let_def)
qed

text \<open>
  Claim C7 fails on the code. The record's pane target names window 99 of the session; the
  snapshot has the windows 0 and 1, so the record matches no window of it. The result is
  nevertheless an annotation for window 99: the function reads the session name and never
  the snapshot's windows, although its docstring says the records are matched against them
  (and \<open>query_opencode_for_window\<close> in name.py does compare the index).
\<close>

theorem build_opencode_context_unmatched_window:
  \<open>\<not> list_ex (record_matches_window ''work'' ex_record)
         (sc_windows (ex_context [ex_window ''@1'' 0, ex_window ''@2'' 1]))
   \<and> build_opencode_context (\<lambda>sid. ''work'') [ex_record]
        (ex_context [ex_window ''@1'' 0, ex_window ''@2'' 1])
       = ''window 99 has opencode session: "fix parser" (unknown, 0 messages, model: ?)''\<close>
  by code_simp

end
